theory Spec2Isabelle
  imports Complex_Main
begin

section \<open>JavaScript values\<close>

text \<open>
  The receiver panel is ExtendScript (JavaScript). Its numbers are modelled as reals:
  rounding of IEEE doubles and the sign of zero are not represented. The non-finite
  numbers are separate constructors, so that the guards \<^verbatim>\<open>typeof v === 'number'\<close> and
  \<^verbatim>\<open>isFinite(v)\<close> of the source stay meaningful. An object is an association list
  from field names to values; the first binding of a name is the field's value.
\<close>

datatype jsval =
    JUndefined
  | JNull
  | JBool bool
  | JNum real
  | JNaN
  | JInfinity bool
  | JStr string
  | JArr "jsval list"
  | JObj "(string \<times> jsval) list"

text \<open>Truthiness, as \<^verbatim>\<open>if (v)\<close>, \<^verbatim>\<open>!v\<close>, \<^verbatim>\<open>a || b\<close> and \<^verbatim>\<open>a && b\<close> read a value.\<close>

fun truthy :: "jsval \<Rightarrow> bool" where
  "truthy JUndefined = False"
| "truthy JNull = False"
| "truthy (JBool b) = b"
| "truthy (JNum r) = (r \<noteq> 0)"
| "truthy JNaN = False"
| "truthy (JInfinity s) = True"
| "truthy (JStr s) = (s \<noteq> [])"
| "truthy (JArr vs) = True"
| "truthy (JObj kvs) = True"

definition js_or :: "jsval \<Rightarrow> jsval \<Rightarrow> jsval" where
  "js_or a b = (if truthy a then a else b)"

text \<open>
  Reading a field \<^verbatim>\<open>v.name\<close>. A field that is not there reads as \<^verbatim>\<open>undefined\<close>. On
  \<^verbatim>\<open>null\<close> and \<^verbatim>\<open>undefined\<close> the read throws in JavaScript; the only such read of the
  modelled code sits in a \<^verbatim>\<open>try\<close> whose handler returns \<^verbatim>\<open>null\<close>, which is also what
  the code does with the value \<^verbatim>\<open>undefined\<close> there.
\<close>

fun field :: "string \<Rightarrow> jsval \<Rightarrow> jsval" where
  "field n (JObj kvs) = (case map_of kvs n of Some v \<Rightarrow> v | None \<Rightarrow> JUndefined)"
| "field n v = JUndefined"

fun typeof_number :: "jsval \<Rightarrow> bool" where
  "typeof_number (JNum r) = True"
| "typeof_number JNaN = True"
| "typeof_number (JInfinity s) = True"
| "typeof_number v = False"

fun isFinite :: "jsval \<Rightarrow> bool" where
  "isFinite (JNum r) = True"
| "isFinite v = False"

text \<open>
  Strict equality \<^verbatim>\<open>a === b\<close>: no coercion, \<^verbatim>\<open>NaN\<close> differs from itself, and two
  objects (or arrays) that come from two parses are never the same object.
\<close>

fun strict_eq :: "jsval \<Rightarrow> jsval \<Rightarrow> bool" where
  "strict_eq JNaN b = False"
| "strict_eq (JArr vs) b = False"
| "strict_eq (JObj kvs) b = False"
| "strict_eq a b = (a = b)"

text \<open>The finite number a value holds, when \<^verbatim>\<open>typeof v === 'number' && isFinite(v)\<close>.\<close>

definition finite_number :: "jsval \<Rightarrow> real option" where
  "finite_number v =
     (if typeof_number v \<and> isFinite v then (case v of JNum r \<Rightarrow> Some r | _ \<Rightarrow> None) else None)"

subsection \<open>Strings\<close>

text \<open>
  \<^verbatim>\<open>c.replace(/^\s+|\s+$/g, '')\<close> trims white space at both ends. A character of
  a file is a code below 256 here, and \<^verbatim>\<open>\s\<close> is the part of the white space of
  JavaScript below 256: space, tab, line feed, vertical tab, form feed, carriage
  return and the no-break space (code 160).
\<close>

definition is_space :: "char \<Rightarrow> bool" where
  "is_space c =
     (c \<in> set [CHR 0x20, CHR 0x09, CHR 0x0A, CHR 0x0B, CHR 0x0C, CHR 0x0D, CHR 0xA0])"

definition trim :: "string \<Rightarrow> string" where
  "trim s = rev (dropWhile is_space (rev (dropWhile is_space s)))"

text \<open>\<^verbatim>\<open>c.charAt(0) === '{' && c.charAt(c.length - 1) === '}'\<close>; false on the empty string.\<close>

definition braced :: "string \<Rightarrow> bool" where
  "braced c = (c \<noteq> [] \<and> hd c = CHR ''{'' \<and> last c = CHR ''}'')"

text \<open>\<^verbatim>\<open>candidate.replace(/\/$/, '')\<close>: one trailing slash is dropped.\<close>

definition stripSlash :: "string \<Rightarrow> string" where
  "stripSlash s = (if s \<noteq> [] \<and> last s = CHR ''/'' then butlast s else s)"

section \<open>The host application\<close>

text \<open>
  The panel drives After Effects through its scripting objects. Only what the panel
  uses is modelled. A property has a static value and a list of keyframes (time and
  value, in the order of their indices), a value type, and the flag \<^verbatim>\<open>canSetValue\<close>.
  Properties live in a store addressed by a reference, since the panel keeps references
  to them in \<^verbatim>\<open>currentProperties\<close> and writes through these references.
\<close>

datatype valueType = COLOR | OTHER_TYPE

record property =
  staticValue :: jsval
  keys :: "(real \<times> jsval) list"
  propertyValueType :: valueType
  canSetValue :: bool

text \<open>
  The tree under an effect: a property (name, match name, reference into the store)
  or a group (name, match name, children), as \<^verbatim>\<open>propertyType\<close> distinguishes them.
\<close>

datatype ptree =
    Leaf string string nat
  | Group string string "ptree list"

record effect =
  eName :: string
  children :: "ptree list"

record layer =
  lName :: string
  selected :: bool
  effects :: "effect list"

record comp =
  layers :: "layer list"
  time :: real
  duration :: real
  frameDuration :: real

text \<open>
  \<^verbatim>\<open>app.project.activeItem\<close> is \<open>None\<close> when there is no active item or it is not a
  composition (the two tests \<^verbatim>\<open>!comp || !(comp instanceof CompItem)\<close> of the source).
\<close>

record host =
  activeItem :: "comp option"
  store :: "nat \<Rightarrow> property"

datatype exn = TypeError | HostError string

fun message :: "exn \<Rightarrow> string" where
  "message TypeError = ''undefined is not an object''"
| "message (HostError m) = m"


subsection \<open>Keyframes\<close>

text \<open>
  The keyframe operations of a property, as the scripting interface documents them.
  Indices of keyframes start at 1. \<^verbatim>\<open>nearestKeyIndex(t)\<close> is the index of the keyframe
  whose time is nearest to \<open>t\<close> (the first of them when two are equally near); the
  panel only calls it when \<^verbatim>\<open>numKeys > 0\<close>. \<^verbatim>\<open>keyTime(i)\<close> and \<^verbatim>\<open>removeKey(i)\<close> throw
  when no keyframe has index \<open>i\<close>. \<^verbatim>\<open>setValueAtTime(t, v)\<close> changes the keyframe at \<open>t\<close>
  or adds one; \<^verbatim>\<open>setValue(v)\<close> sets the static value and throws on a property that has
  keyframes. Both throw when the property cannot be set.
\<close>

definition numKeys :: "property \<Rightarrow> nat" where
  "numKeys p = length (keys p)"

fun nearest :: "real \<Rightarrow> real list \<Rightarrow> nat" where
  "nearest t [] = 0"
| "nearest t [x] = 0"
| "nearest t (x # y # ys) =
     (let j = nearest t (y # ys)
      in if \<bar>x - t\<bar> \<le> \<bar>(y # ys) ! j - t\<bar> then 0 else Suc j)"

definition nearestKeyIndex :: "property \<Rightarrow> real \<Rightarrow> nat" where
  "nearestKeyIndex p t = Suc (nearest t (map fst (keys p)))"

definition keyTime :: "property \<Rightarrow> nat \<Rightarrow> exn + real" where
  "keyTime p i =
     (if 1 \<le> i \<and> i \<le> numKeys p then Inr (fst (keys p ! (i - 1)))
      else Inl (HostError ''keyframe index out of range''))"

definition removeKey :: "property \<Rightarrow> nat \<Rightarrow> exn + property" where
  "removeKey p i =
     (if 1 \<le> i \<and> i \<le> numKeys p
      then Inr (p\<lparr>keys := take (i - 1) (keys p) @ drop i (keys p)\<rparr>)
      else Inl (HostError ''keyframe index out of range''))"

fun upsert :: "real \<Rightarrow> jsval \<Rightarrow> (real \<times> jsval) list \<Rightarrow> (real \<times> jsval) list" where
  "upsert t v [] = [(t, v)]"
| "upsert t v ((s, u) # ks) =
     (if s = t then (t, v) # ks
      else if t < s then (t, v) # (s, u) # ks
      else (s, u) # upsert t v ks)"

definition setValueAtTime :: "property \<Rightarrow> real \<Rightarrow> jsval \<Rightarrow> exn + property" where
  "setValueAtTime p t v =
     (if canSetValue p then Inr (p\<lparr>keys := upsert t v (keys p)\<rparr>)
      else Inl (HostError ''cannot set value''))"

definition setValue :: "property \<Rightarrow> jsval \<Rightarrow> exn + property" where
  "setValue p v =
     (if \<not> canSetValue p then Inl (HostError ''cannot set value'')
      else if keys p \<noteq> [] then Inl (HostError ''property has keyframes'')
      else Inr (p\<lparr>staticValue := v\<rparr>))"

text \<open>
  \<^verbatim>\<open>prop.value\<close> is the value at the current time: the static value when there are no
  keyframes, the value of the keyframe at that time when there is one, and otherwise
  what the host interpolates (\<open>ip\<close>, a parameter).
\<close>

definition valueAt ::
  "((real \<times> jsval) list \<Rightarrow> real \<Rightarrow> jsval) \<Rightarrow> property \<Rightarrow> real \<Rightarrow> jsval" where
  "valueAt ip p t =
     (if keys p = [] then staticValue p
      else (case map_of (keys p) t of Some v \<Rightarrow> v | None \<Rightarrow> ip (keys p) t))"

section \<open>The state of the panel\<close>

text \<open>
  What the panel reads from outside in one tick: the files (a path has a content or
  does not exist), \<^verbatim>\<open>JSON.parse\<close> (\<open>None\<close> when it throws), the host's interpolation,
  the names that every object of the script engine inherits (such as
  \<^verbatim>\<open>constructor\<close>) and the clock. A button record is the record of the external interface:
  \<^verbatim>\<open>{ button: string, pressed: bool, timestamp: number }\<close>, each field possibly absent;
  an absent \<^verbatim>\<open>button\<close> is the empty string and an absent \<^verbatim>\<open>pressed\<close> is false, which the
  code does not tell apart.
\<close>

record btnData =
  button :: string
  pressed :: bool
  timestamp :: "real option"

record env =
  files :: "string \<Rightarrow> string option"
  JSON_parse :: "string \<Rightarrow> jsval option"
  JSON_parse_button :: "string \<Rightarrow> btnData option"
  interp :: "(real \<times> jsval) list \<Rightarrow> real \<Rightarrow> jsval"
  inherited :: "string \<Rightarrow> bool"
  clock :: string

text \<open>The entries of \<^verbatim>\<open>currentEffects\<close> and \<^verbatim>\<open>currentProperties\<close>.\<close>

record effinfo =
  ei_name :: string
  ei_index :: nat
  ei_effect :: effect

record propinfo =
  pi_name :: string
  pi_index :: nat
  pi_prop :: nat
  pi_valueType :: valueType
  pi_currentValue :: jsval
  pi_matchName :: string

text \<open>
  A status line is kept as the pieces the source concatenates: a literal, a number
  printed by \<^verbatim>\<open>toFixed(2)\<close>, a count, or \<^verbatim>\<open>typeof v\<close>.
\<close>

datatype piece = Lit string | Fixed2 jsval | Count nat | TypeOf jsval

type_synonym status = "piece list"

text \<open>
  The variables of the panel (\<^verbatim>\<open>src/unnamed/part_001\<close>) and the widgets it reads back.
  A drop-down list is its selection: \<open>None\<close> for \<^verbatim>\<open>selection === null\<close>, \<open>Some i\<close> for
  the item of index \<open>i\<close>; the items themselves are only displayed. Of the labels, the
  status line and the heartbeat are kept; the labels that only display a value
  (\<^verbatim>\<open>layerText\<close>, \<^verbatim>\<open>valDisplay\<close>, the debug traces behind \<^verbatim>\<open>verboseDebug\<close>) are left out.
  The two sensitivity boxes hold what \<^verbatim>\<open>parseFloat\<close> makes of their text (\<open>None\<close> for
  \<^verbatim>\<open>NaN\<close>). A handler \<^verbatim>\<open>onChange\<close> runs when the user changes a selection, not in a tick.
\<close>

record world =
  app :: host
  isActive :: bool
  lastDialValue :: "real option"
  lastSmallDialValue :: "real option"
  lastLayerName :: string
  currentEffects :: "effinfo list"
  currentProperties :: "propinfo list"
  lastButtonTimestamp :: real
  mappingsCache :: "(string \<times> jsval) list"
  isLoadingMappings :: bool
  lastRawPositionContent :: string
  lastRawButtonContent :: string
  lastPositionTS :: jsval
  lastValidPosition :: jsval
  fallbackCandidates :: "string list"
  effectDropdown :: "nat option"
  propDropdown :: "nat option"
  keypadDropdowns :: "nat option list"
  sensInput :: "real option"
  sensInputTimeline :: "real option"
  statusText :: status
  heartbeatText :: string
  logi_receiver_task_id :: "nat option"

text \<open>
  The values the variables are declared with (lines 65 to 79 and 287), before the first
  \<^verbatim>\<open>populateEffects\<close>; the host and the candidate folders are given.
\<close>

definition initialState :: "host \<Rightarrow> string list \<Rightarrow> world" where
  "initialState h candidates =
     \<lparr>app = h, isActive = False, lastDialValue = None, lastSmallDialValue = None,
      lastLayerName = [], currentEffects = [], currentProperties = [],
      lastButtonTimestamp = 0, mappingsCache = [], isLoadingMappings = False,
      lastRawPositionContent = [], lastRawButtonContent = [],
      lastPositionTS = JNum 0, lastValidPosition = JObj [(''x'', JNum 0), (''y'', JNum 0)],
      fallbackCandidates = candidates,
      effectDropdown = Some 0, propDropdown = Some 0,
      keypadDropdowns = replicate 6 (Some 0),
      sensInput = Some 0.1, sensInputTimeline = Some 1,
      statusText = [Lit ''Select a layer to see its effects''],
      heartbeatText = ''HB: n/a'', logi_receiver_task_id = None\<rparr>"

section \<open>Reading the state files\<close>

definition POSITION_FILE :: string where
  "POSITION_FILE = ''C:/temp/logi_position.json''"

definition BUTTON_FILE :: string where
  "BUTTON_FILE = ''C:/temp/logi_button.json''"

text \<open>
  \<^verbatim>\<open>tryPath\<close> of \<^verbatim>\<open>readPositionFile\<close>. Every failure inside it is caught and gives
  \<^verbatim>\<open>null\<close>. The raw content and the marker are assigned before the record is validated.
\<close>

definition tryPath :: "env \<Rightarrow> string \<Rightarrow> world \<Rightarrow> jsval \<times> world" where
  "tryPath env path w =
     (case files env path of
        None \<Rightarrow> (JNull, w)
      | Some c0 \<Rightarrow>
          let w1 = w\<lparr>lastRawPositionContent := c0\<rparr> in
          if c0 = [] then (JNull, w1)
          else
            let c = trim c0 in
            if \<not> braced c then (JNull, w1)
            else
              (case JSON_parse env c of
                 None \<Rightarrow> (JNull, w1)
               | Some parsed \<Rightarrow>
                   let ts = js_or (if truthy parsed
                                   then js_or (field ''_ts'' parsed) (field ''timestamp'' parsed)
                                   else parsed) (JNum 0) in
                   if truthy ts \<and> strict_eq ts (lastPositionTS w1)
                   then (lastValidPosition w1, w1)
                   else
                     let w2 = (if truthy ts then w1\<lparr>lastPositionTS := ts\<rparr> else w1) in
                     if typeof_number (field ''x'' parsed) \<and> typeof_number (field ''y'' parsed)
                        \<and> isFinite (field ''x'' parsed) \<and> isFinite (field ''y'' parsed)
                     then (parsed, w2\<lparr>lastValidPosition := parsed\<rparr>)
                     else (JNull, w2)))"

text \<open>The loop over \<^verbatim>\<open>fallbackCandidates\<close>: an empty candidate is skipped.\<close>

fun tryFallbacks :: "env \<Rightarrow> string list \<Rightarrow> world \<Rightarrow> jsval \<times> world" where
  "tryFallbacks env [] w = (JNull, w)"
| "tryFallbacks env (candidate # rest) w =
     (if candidate = [] then tryFallbacks env rest w
      else
        (case tryPath env (stripSlash candidate @ ''/logi_position.json'') w of
           (res, w1) \<Rightarrow> if truthy res then (res, w1) else tryFallbacks env rest w1))"

definition readPositionFile :: "env \<Rightarrow> world \<Rightarrow> jsval \<times> world" where
  "readPositionFile env w =
     (let w0 = w\<lparr>lastRawPositionContent := []\<rparr> in
      case tryPath env POSITION_FILE w0 of
        (res, w1) \<Rightarrow>
          if truthy res then (res, w1)
          else
            (case tryFallbacks env (fallbackCandidates w1) w1 of
               (res2, w2) \<Rightarrow>
                 if truthy res2 then (res2, w2)
                 else
                   let w3 = (if lastRawPositionContent w2 = []
                             then w2\<lparr>lastRawPositionContent := ''(missing)''\<rparr> else w2)
                   in (lastValidPosition w3, w3)))"

text \<open>
  \<^verbatim>\<open>readButtonFile\<close>: the same search, with no validation beyond the braces and the
  parse, and with \<^verbatim>\<open>null\<close> (here \<open>None\<close>) when no candidate gives a record.
\<close>

definition tryPathB :: "env \<Rightarrow> string \<Rightarrow> world \<Rightarrow> btnData option \<times> world" where
  "tryPathB env path w =
     (case files env path of
        None \<Rightarrow> (None, w)
      | Some c0 \<Rightarrow>
          let w1 = w\<lparr>lastRawButtonContent := c0\<rparr> in
          if c0 = [] then (None, w1)
          else
            let c = trim c0 in
            if braced c then (JSON_parse_button env c, w1) else (None, w1))"

fun tryFallbacksB :: "env \<Rightarrow> string list \<Rightarrow> world \<Rightarrow> btnData option \<times> world" where
  "tryFallbacksB env [] w = (None, w)"
| "tryFallbacksB env (cand # rest) w =
     (if cand = [] then tryFallbacksB env rest w
      else
        (case tryPathB env (stripSlash cand @ ''/logi_button.json'') w of
           (Some r, w1) \<Rightarrow> (Some r, w1)
         | (None, w1) \<Rightarrow> tryFallbacksB env rest w1))"

definition readButtonFile :: "env \<Rightarrow> world \<Rightarrow> btnData option \<times> world" where
  "readButtonFile env w =
     (let w0 = w\<lparr>lastRawButtonContent := []\<rparr> in
      case tryPathB env BUTTON_FILE w0 of
        (Some r, w1) \<Rightarrow> (Some r, w1)
      | (None, w1) \<Rightarrow>
          (case tryFallbacksB env (fallbackCandidates w1) w1 of
             (Some r, w2) \<Rightarrow> (Some r, w2)
           | (None, w2) \<Rightarrow>
               (None, if lastRawButtonContent w2 = []
                      then w2\<lparr>lastRawButtonContent := ''(missing)''\<rparr> else w2)))"


section \<open>Enumerating effects and properties\<close>

text \<open>\<^verbatim>\<open>comp.selectedLayers\<close>, each layer with its \<^verbatim>\<open>index\<close> (layers are numbered from 1).\<close>

definition selectedLayers :: "comp \<Rightarrow> (nat \<times> layer) list" where
  "selectedLayers c = filter (\<lambda>(i, l). selected l) (enumerate 1 (layers c))"

definition getLayerEffects :: "layer \<Rightarrow> effinfo list" where
  "getLayerEffects l =
     map (\<lambda>(i, e). \<lparr>ei_name = eName e, ei_index = i, ei_effect = e\<rparr>)
       (enumerate 1 (effects l))"

text \<open>\<^verbatim>\<open>prop.value\<close> of the property behind a reference, at the composition's time.\<close>

definition propValue :: "env \<Rightarrow> host \<Rightarrow> nat \<Rightarrow> jsval" where
  "propValue env h r =
     valueAt (interp env) (store h r) (case activeItem h of Some c \<Rightarrow> time c | None \<Rightarrow> 0)"

definition hasNumericValue :: "jsval \<Rightarrow> bool" where
  "hasNumericValue v =
     (typeof_number v \<or> (case v of JArr (x # xs) \<Rightarrow> typeof_number x | _ \<Rightarrow> False))"

text \<open>
  \<^verbatim>\<open>getEffectProperties(effect, prefix)\<close>: the loop over the children (numbered from
  \<open>i\<close>), descending into groups, keeping the properties with a numeric value.
\<close>

fun getEffectProperties :: "env \<Rightarrow> host \<Rightarrow> string \<Rightarrow> nat \<Rightarrow> ptree list \<Rightarrow> propinfo list"
  and visit :: "env \<Rightarrow> host \<Rightarrow> string \<Rightarrow> nat \<Rightarrow> ptree \<Rightarrow> propinfo list" where
  "getEffectProperties env h prefix i [] = []"
| "getEffectProperties env h prefix i (t # ts) =
     visit env h prefix i t @ getEffectProperties env h prefix (Suc i) ts"
| "visit env h prefix i (Group nm mn ts) =
     (let displayName = (if nm = [] then ''['' @ mn @ '']'' else nm);
          propName = (if prefix \<noteq> [] then prefix @ '' > '' @ displayName else displayName)
      in getEffectProperties env h propName 1 ts)"
| "visit env h prefix i (Leaf nm mn r) =
     (let displayName = (if nm = [] then ''['' @ mn @ '']'' else nm);
          propName = (if prefix \<noteq> [] then prefix @ '' > '' @ displayName else displayName);
          currentValue = propValue env h r
      in if hasNumericValue currentValue
         then [\<lparr>pi_name = propName, pi_index = i, pi_prop = r,
                pi_valueType = propertyValueType (store h r),
                pi_currentValue = currentValue, pi_matchName = mn\<rparr>]
         else [])"

text \<open>\<^verbatim>\<open>populateProperties\<close>: the property list of the selected effect.\<close>

definition populateProperties :: "env \<Rightarrow> world \<Rightarrow> world" where
  "populateProperties env w =
     (let w0 = w\<lparr>propDropdown := None, currentProperties := []\<rparr> in
      case effectDropdown w0 of
        None \<Rightarrow> w0\<lparr>propDropdown := Some 0\<rparr>
      | Some effectIdx \<Rightarrow>
          if effectIdx \<ge> length (currentEffects w0) then w0\<lparr>propDropdown := Some 0\<rparr>
          else
            let ps = getEffectProperties env (app w0) [] 1
                       (children (ei_effect (currentEffects w0 ! effectIdx)));
                w1 = w0\<lparr>currentProperties := ps\<rparr>
            in if length ps = 0
               then w1\<lparr>propDropdown := Some 0,
                       statusText := [Lit ''No numeric properties found in this effect'']\<rparr>
               else w1\<lparr>statusText := [Lit ''Found '', Count (length ps), Lit '' properties''],
                       propDropdown := Some 0\<rparr>)"

text \<open>
  \<^verbatim>\<open>updateKeypadDropdowns\<close>: every keypad list is refilled and keeps its selection when
  that is still the index of a property (index 0 is the item "(none)").
\<close>

definition updateKeypadDropdowns :: "world \<Rightarrow> world" where
  "updateKeypadDropdowns w =
     w\<lparr>keypadDropdowns :=
          map (\<lambda>d. let currentSelection = (case d of Some i \<Rightarrow> i | None \<Rightarrow> 0)
                    in if currentSelection > 0 \<and> currentSelection \<le> length (currentProperties w)
                       then Some currentSelection else Some 0)
            (keypadDropdowns w),
        isLoadingMappings := False\<rparr>"

subsection \<open>Mappings\<close>

definition MAPPINGS_FOLDER :: string where
  "MAPPINGS_FOLDER = ''C:/Program Files/Adobe/Adobe After Effects 2025/Support Files/Scripts/ScriptUI Panels/logi-mx-creative-dialpad-integrations/mappings''"

text \<open>The names of the nine keypad buttons: the strings of one digit, "1" to "9".\<close>

definition keypadButtons :: "string list" where
  "keypadButtons = map (\<lambda>digit. [digit]) ''123456789''"

definition alnum :: "char \<Rightarrow> bool" where
  "alnum c = (c \<in> set ''abcdefghijklmnopqrstuvwxyzABCDEFGHIJKLMNOPQRSTUVWXYZ0123456789'')"

definition getEffectFileName :: "string \<Rightarrow> string" where
  "getEffectFileName effName = map (\<lambda>c. if alnum c then c else CHR ''_'') effName @ ''.json''"

fun indexOf :: "('a \<Rightarrow> bool) \<Rightarrow> 'a list \<Rightarrow> nat option" where
  "indexOf P [] = None"
| "indexOf P (x # xs) = (if P x then Some 0 else map_option Suc (indexOf P xs))"

text \<open>
  The loop of \<^verbatim>\<open>autoLoadMappings\<close> that sets the keypad lists from a mapping record:
  list \<open>i\<close> belongs to button \<^verbatim>\<open>keypadButtons[i]\<close>.
\<close>

definition applyMappings :: "jsval \<Rightarrow> propinfo list \<Rightarrow> nat option list \<Rightarrow> nat option list" where
  "applyMappings mappings ps dds =
     map (\<lambda>(i, d).
            let btnName = keypadButtons ! i;
                propName = (if truthy (field ''buttons'' mappings)
                            then field btnName (field ''buttons'' mappings)
                            else field ''buttons'' mappings)
            in if truthy propName
               then (case indexOf (\<lambda>q. JStr (pi_name q) = propName) ps of
                       Some j \<Rightarrow> Some (j + 1)
                     | None \<Rightarrow> Some 0)
               else Some 0)
       (enumerate 0 dds)"

text \<open>
  \<^verbatim>\<open>autoLoadMappings\<close>: the cache first, then the mapping file of the effect. A parse
  that throws is caught and leaves the lists as they are. The cache is a plain object,
  so \<^verbatim>\<open>mappingsCache[effectName]\<close> with nothing stored under the name is \<^verbatim>\<open>undefined\<close>,
  except for a name that every object inherits: that reads as the inherited function,
  which is truthy and has no field \<^verbatim>\<open>buttons\<close> (here \<open>JObj []\<close>).
\<close>

definition autoLoadMappings :: "env \<Rightarrow> world \<Rightarrow> world" where
  "autoLoadMappings env w =
     (let w0 = w\<lparr>isLoadingMappings := True\<rparr>;
          finish = (\<lambda>effName mappings w1.
             if \<not> truthy mappings then w1\<lparr>isLoadingMappings := False\<rparr>
             else w1\<lparr>keypadDropdowns :=
                        applyMappings mappings (currentProperties w1) (keypadDropdowns w1),
                      statusText := [Lit ''Loaded mapping for: '', Lit effName],
                      isLoadingMappings := False\<rparr>)
      in case effectDropdown w0 of
           None \<Rightarrow> w0\<lparr>isLoadingMappings := False\<rparr>
         | Some effectIdx \<Rightarrow>
             if effectIdx \<ge> length (currentEffects w0) then w0\<lparr>isLoadingMappings := False\<rparr>
             else
               let effName = ei_name (currentEffects w0 ! effectIdx);
                   cached = (case map_of (mappingsCache w0) effName of
                               Some m \<Rightarrow> m
                             | None \<Rightarrow> if inherited env effName then JObj [] else JUndefined)
               in if truthy cached then finish effName cached w0
                  else
                    (case files env (MAPPINGS_FOLDER @ ''/'' @ getEffectFileName effName) of
                       None \<Rightarrow> finish effName JNull w0
                     | Some content \<Rightarrow>
                         (case JSON_parse env content of
                            None \<Rightarrow> w0\<lparr>isLoadingMappings := False\<rparr>
                          | Some mappings \<Rightarrow>
                              finish effName mappings
                                (w0\<lparr>mappingsCache := (effName, mappings) # mappingsCache w0\<rparr>))))"

text \<open>\<^verbatim>\<open>populateEffects\<close>: the effects of the first selected layer.\<close>

definition populateEffects :: "env \<Rightarrow> world \<Rightarrow> world" where
  "populateEffects env w =
     (let w0 = w\<lparr>effectDropdown := None, propDropdown := None,
                 currentEffects := [], currentProperties := []\<rparr> in
      case activeItem (app w0) of
        None \<Rightarrow> w0\<lparr>effectDropdown := Some 0\<rparr>
      | Some c \<Rightarrow>
          (case selectedLayers c of
             [] \<Rightarrow> w0\<lparr>effectDropdown := Some 0\<rparr>
           | (i, l) # others \<Rightarrow>
               let w1 = w0\<lparr>currentEffects := getLayerEffects l\<rparr> in
               if length (currentEffects w1) = 0
               then w1\<lparr>effectDropdown := Some 0, propDropdown := Some 0\<rparr>
               else autoLoadMappings env
                      (updateKeypadDropdowns
                         (populateProperties env (w1\<lparr>effectDropdown := Some 0\<rparr>)))))"

text \<open>\<^verbatim>\<open>selectLayerByIndex\<close> and \<^verbatim>\<open>getCurrentLayerIndex\<close> (\<open>-1\<close> when nothing is selected).\<close>

definition selectLayerByIndex :: "env \<Rightarrow> int \<Rightarrow> world \<Rightarrow> world" where
  "selectLayerByIndex env layerIndex w =
     (case activeItem (app w) of
        None \<Rightarrow> w
      | Some c \<Rightarrow>
          if layerIndex \<ge> 1 \<and> layerIndex \<le> int (length (layers c))
          then
            let ls = map (\<lambda>(i, l). l\<lparr>selected := (int i = layerIndex)\<rparr>) (enumerate 1 (layers c));
                w1 = w\<lparr>app := (app w)\<lparr>activeItem := Some (c\<lparr>layers := ls\<rparr>)\<rparr>,
                       lastLayerName := []\<rparr>;
                w2 = populateEffects env w1
            in w2\<lparr>statusText := [Lit ''Layer: '', Lit (lName (ls ! (nat layerIndex - 1)))]\<rparr>
          else w)"

definition getCurrentLayerIndex :: "world \<Rightarrow> int" where
  "getCurrentLayerIndex w =
     (case activeItem (app w) of
        None \<Rightarrow> - 1
      | Some c \<Rightarrow> (case selectedLayers c of [] \<Rightarrow> - 1 | (i, l) # others \<Rightarrow> int i))"


section \<open>Buttons\<close>

text \<open>
  A step of the panel either returns or throws; a throw carries the state at the
  point where it happened, since the assignments made before it stay.
\<close>

datatype outcome = Done world | Raised exn world

fun state_of :: "outcome \<Rightarrow> world" where
  "state_of (Done w) = w"
| "state_of (Raised e w) = w"

fun andThen :: "outcome \<Rightarrow> (world \<Rightarrow> outcome) \<Rightarrow> outcome" where
  "andThen (Done w) f = f w"
| "andThen (Raised e w) f = Raised e w"

definition setTime :: "real \<Rightarrow> world \<Rightarrow> world" where
  "setTime t w =
     w\<lparr>app := (app w)\<lparr>activeItem := map_option (\<lambda>c. c\<lparr>time := t\<rparr>) (activeItem (app w))\<rparr>\<rparr>"

definition setProp :: "nat \<Rightarrow> property \<Rightarrow> world \<Rightarrow> world" where
  "setProp r p w = w\<lparr>app := (app w)\<lparr>store := (store (app w))(r := p)\<rparr>\<rparr>"

text \<open>
  The blocks of \<^verbatim>\<open>checkButtons\<close>, in the order of the source. Each starts with a test
  of the button's name. First the TOP buttons (lines 948 to 973): the next or the
  previous effect. The last line reads \<^verbatim>\<open>currentEffects[newIdx].name\<close> outside any
  \<^verbatim>\<open>try\<close>, which throws when \<open>newIdx\<close> is not an index of \<^verbatim>\<open>currentEffects\<close>.
\<close>

definition topButtons :: "env \<Rightarrow> string \<Rightarrow> world \<Rightarrow> outcome" where
  "topButtons env btn w =
     (if btn = ''TOP RIGHT'' \<or> btn = ''TOP LEFT'' then
        let currentIdx = (case effectDropdown w of Some i \<Rightarrow> int i | None \<Rightarrow> 0);
            n = int (length (currentEffects w));
            newIdx = (if btn = ''TOP RIGHT''
                      then (if currentIdx + 1 \<ge> n then 0 else currentIdx + 1)
                      else (if currentIdx - 1 < 0 then n - 1 else currentIdx - 1))
        in if newIdx \<noteq> currentIdx \<and> n > 0 then
             let w1 = updateKeypadDropdowns
                        (populateProperties env (w\<lparr>effectDropdown := Some (nat newIdx)\<rparr>));
                 w2 = w1\<lparr>lastDialValue := None\<rparr>
             in if newIdx < n
                then Done (w2\<lparr>statusText :=
                             [Lit ''Effect: '', Lit (ei_name (currentEffects w2 ! nat newIdx))]\<rparr>)
                else Raised TypeError w2
           else Done w
      else Done w)"

text \<open>
  The BOTTOM buttons (lines 976 to 1006): the next or the previous layer. The
  \<^verbatim>\<open>return\<close> of this block when there is no composition ends \<^verbatim>\<open>checkButtons\<close>; the
  blocks after it test for other names, so they would do nothing.
\<close>

definition bottomButtons :: "env \<Rightarrow> string \<Rightarrow> world \<Rightarrow> world" where
  "bottomButtons env btn w =
     (if btn = ''BOTTOM RIGHT'' \<or> btn = ''BOTTOM LEFT'' then
        (case activeItem (app w) of
           None \<Rightarrow> w
         | Some c \<Rightarrow>
             let currentLayerIdx = (if getCurrentLayerIndex w < 0 then 1 else getCurrentLayerIndex w);
                 numLayers = int (length (layers c));
                 newLayerIdx = (if btn = ''BOTTOM RIGHT''
                                then (if currentLayerIdx + 1 > numLayers then 1 else currentLayerIdx + 1)
                                else (if currentLayerIdx - 1 < 1 then numLayers else currentLayerIdx - 1))
             in if newLayerIdx \<noteq> currentLayerIdx then selectLayerByIndex env newLayerIdx w else w)
      else w)"

text \<open>The keypad buttons 1 to 6 (lines 1009 to 1025): select the mapped property.\<close>

definition keypadButtonIndex :: "string \<Rightarrow> nat option" where
  "keypadButtonIndex btn =
     (if btn = ''1'' then Some 0 else if btn = ''2'' then Some 1 else if btn = ''3'' then Some 2
      else if btn = ''4'' then Some 3 else if btn = ''5'' then Some 4 else if btn = ''6'' then Some 5
      else None)"

definition keypadSelect :: "string \<Rightarrow> world \<Rightarrow> world" where
  "keypadSelect btn w =
     (case keypadButtonIndex btn of
        None \<Rightarrow> w
      | Some k \<Rightarrow>
          if k < length (keypadDropdowns w) then
            let propIdx = (case keypadDropdowns w ! k of Some i \<Rightarrow> i | None \<Rightarrow> 0)
            in if propIdx > 0 \<and> propIdx \<le> length (currentProperties w)
               then w\<lparr>propDropdown := Some (propIdx - 1), lastDialValue := None,
                       statusText := [Lit ''Property: '',
                                      Lit (pi_name (currentProperties w ! (propIdx - 1)))]\<rparr>
               else w
          else w)"

text \<open>
  The selected property of the blocks for the buttons 7, 8 and 9:
  \<^verbatim>\<open>propIdx >= 0 && propIdx < currentProperties.length\<close>.
\<close>

definition selectedProp :: "world \<Rightarrow> nat option" where
  "selectedProp w =
     (case propDropdown w of
        None \<Rightarrow> None
      | Some propIdx \<Rightarrow>
          if propIdx < length (currentProperties w)
          then Some (pi_prop (currentProperties w ! propIdx)) else None)"

text \<open>
  Button 7 (lines 1028 to 1057): jump to the previous keyframe. Reading \<^verbatim>\<open>comp.time\<close>
  throws when there is no active item; the handler of the block reports it.
\<close>

definition prevKeyframe :: "string \<Rightarrow> world \<Rightarrow> world" where
  "prevKeyframe btn w =
     (if btn = ''7'' then
        (case selectedProp w of
           None \<Rightarrow> w
         | Some r \<Rightarrow>
             let p = store (app w) r in
             if numKeys p > 0 then
               (case activeItem (app w) of
                  None \<Rightarrow> w\<lparr>statusText := [Lit ''Keyframe nav error: '', Lit (message TypeError)]\<rparr>
                | Some c \<Rightarrow>
                    let nearestKey = nearestKeyIndex p (time c);
                        toPrevious =
                          (case keyTime p (nearestKey - 1) of
                             Inl e \<Rightarrow> w\<lparr>statusText := [Lit ''Keyframe nav error: '', Lit (message e)]\<rparr>
                           | Inr kt' \<Rightarrow>
                               (setTime kt' w)\<lparr>statusText := [Lit ''Jumped to previous keyframe'']\<rparr>)
                    in (case keyTime p nearestKey of
                          Inl e \<Rightarrow> w\<lparr>statusText := [Lit ''Keyframe nav error: '', Lit (message e)]\<rparr>
                        | Inr kt \<Rightarrow>
                            if kt \<ge> time c \<and> nearestKey > 1 then toPrevious
                            else if kt < time c then
                              (setTime kt w)\<lparr>statusText := [Lit ''Jumped to previous keyframe'']\<rparr>
                            else if nearestKey > 1 then toPrevious
                            else w\<lparr>statusText := [Lit ''Jumped to previous keyframe'']\<rparr>))
             else w\<lparr>statusText := [Lit ''No keyframes on this property'']\<rparr>)
      else w)"

text \<open>
  Button 8 (lines 1060 to 1093): remove the keyframe at the current time (the nearest
  one, when it is less than 0.001 away), or else add one there with the current
  value.
\<close>

definition toggleKeyframe :: "env \<Rightarrow> string \<Rightarrow> world \<Rightarrow> world" where
  "toggleKeyframe env btn w =
     (if btn = ''8'' then
        (case selectedProp w of
           None \<Rightarrow> w
         | Some r \<Rightarrow>
             (case activeItem (app w) of
                None \<Rightarrow> w\<lparr>statusText := [Lit ''Keyframe toggle error: '', Lit (message TypeError)]\<rparr>
              | Some c \<Rightarrow>
                  let p = store (app w) r;
                      currentTime = time c;
                      keyAtTime =
                        (if numKeys p > 0 then
                           (case keyTime p (nearestKeyIndex p currentTime) of
                              Inl e \<Rightarrow> Inl e
                            | Inr kt \<Rightarrow>
                                if \<bar>kt - currentTime\<bar> < 0.001
                                then Inr (int (nearestKeyIndex p currentTime)) else Inr (- 1))
                         else Inr (- 1))
                  in (case keyAtTime of
                        Inl e \<Rightarrow> w\<lparr>statusText := [Lit ''Keyframe toggle error: '', Lit (message e)]\<rparr>
                      | Inr k \<Rightarrow>
                          if k > 0 then
                            (case removeKey p (nat k) of
                               Inl e \<Rightarrow>
                                 w\<lparr>statusText := [Lit ''Keyframe toggle error: '', Lit (message e)]\<rparr>
                             | Inr p' \<Rightarrow>
                                 (setProp r p' w)\<lparr>statusText :=
                                   [Lit ''Keyframe removed at '', Fixed2 (JNum currentTime), Lit ''s'']\<rparr>)
                          else
                            (case setValueAtTime p currentTime (propValue env (app w) r) of
                               Inl e \<Rightarrow>
                                 w\<lparr>statusText := [Lit ''Keyframe toggle error: '', Lit (message e)]\<rparr>
                             | Inr p' \<Rightarrow>
                                 (setProp r p' w)\<lparr>statusText :=
                                   [Lit ''Keyframe added at '', Fixed2 (JNum currentTime), Lit ''s'']\<rparr>))))
      else w)"

text \<open>Button 9 (lines 1096 to 1125): jump to the next keyframe.\<close>

definition nextKeyframe :: "string \<Rightarrow> world \<Rightarrow> world" where
  "nextKeyframe btn w =
     (if btn = ''9'' then
        (case selectedProp w of
           None \<Rightarrow> w
         | Some r \<Rightarrow>
             let p = store (app w) r in
             if numKeys p > 0 then
               (case activeItem (app w) of
                  None \<Rightarrow> w\<lparr>statusText := [Lit ''Keyframe nav error: '', Lit (message TypeError)]\<rparr>
                | Some c \<Rightarrow>
                    let nearestKey = nearestKeyIndex p (time c);
                        toNext =
                          (case keyTime p (nearestKey + 1) of
                             Inl e \<Rightarrow> w\<lparr>statusText := [Lit ''Keyframe nav error: '', Lit (message e)]\<rparr>
                           | Inr kt' \<Rightarrow>
                               (setTime kt' w)\<lparr>statusText := [Lit ''Jumped to next keyframe'']\<rparr>)
                    in (case keyTime p nearestKey of
                          Inl e \<Rightarrow> w\<lparr>statusText := [Lit ''Keyframe nav error: '', Lit (message e)]\<rparr>
                        | Inr kt \<Rightarrow>
                            if kt \<le> time c \<and> nearestKey < numKeys p then toNext
                            else if kt > time c then
                              (setTime kt w)\<lparr>statusText := [Lit ''Jumped to next keyframe'']\<rparr>
                            else if nearestKey < numKeys p then toNext
                            else w\<lparr>statusText := [Lit ''Jumped to next keyframe'']\<rparr>))
             else w\<lparr>statusText := [Lit ''No keyframes on this property'']\<rparr>)
      else w)"

text \<open>
  \<^verbatim>\<open>checkButtons\<close>: both files are read, then the guards (a record, a button name, a
  marker above the last one, a press), then the blocks. \<^verbatim>\<open>btnData.timestamp || 0\<close> is 0
  for an absent marker.
\<close>

definition checkButtons :: "env \<Rightarrow> world \<Rightarrow> outcome" where
  "checkButtons env w =
     (case readButtonFile env w of
        (btnData, w1) \<Rightarrow>
          let w2 = snd (readPositionFile env w1) in
          (case btnData of
             None \<Rightarrow> Done w2
           | Some b \<Rightarrow>
               if button b = [] then Done w2
               else
                 let ts = (case timestamp b of Some t \<Rightarrow> t | None \<Rightarrow> 0) in
                 if ts \<le> lastButtonTimestamp w2 then Done w2
                 else
                   let w3 = w2\<lparr>lastButtonTimestamp := ts\<rparr> in
                   if \<not> pressed b then Done w3
                   else
                     andThen (topButtons env (button b) w3)
                       (\<lambda>w4. Done (nextKeyframe (button b)
                                     (toggleKeyframe env (button b)
                                        (prevKeyframe (button b)
                                           (keypadSelect (button b)
                                              (bottomButtons env (button b) w4))))))))"


section \<open>The dial\<close>

text \<open>
  \<^verbatim>\<open>updateProperty\<close> is modelled in the order of its text. First the target (lines 1135
  to 1173): the composition, its first selected layer, a new enumeration when the
  layer's name changed, and the selected effect and property. The result is the state
  and the entry of \<^verbatim>\<open>currentProperties\<close>, or no entry where the source returns.
\<close>

definition target :: "env \<Rightarrow> world \<Rightarrow> world \<times> propinfo option" where
  "target env w =
     (case activeItem (app w) of
        None \<Rightarrow> (w, None)
      | Some c \<Rightarrow>
          (case selectedLayers c of
             [] \<Rightarrow> (w, None)
           | (i, l) # others \<Rightarrow>
               let w1 = (if lName l \<noteq> lastLayerName w
                         then (populateEffects env (w\<lparr>lastLayerName := lName l\<rparr>))
                                \<lparr>lastDialValue := None\<rparr>
                         else w)
               in (case effectDropdown w1 of
                     None \<Rightarrow> (w1, None)
                   | Some effectIdx \<Rightarrow>
                       if effectIdx \<ge> length (currentEffects w1) then (w1, None)
                       else
                         (case propDropdown w1 of
                            None \<Rightarrow> (w1, None)
                          | Some propIdx \<Rightarrow>
                              if propIdx \<ge> length (currentProperties w1) then (w1, None)
                              else (w1, Some (currentProperties w1 ! propIdx))))))"

text \<open>
  Then the two dial values (lines 1176 to 1198). Both files are read. \<^verbatim>\<open>pos.x\<close> throws
  when \<open>pos\<close> is \<^verbatim>\<open>null\<close> or \<^verbatim>\<open>undefined\<close>; a big dial value that is not a finite number
  ends the tick; a small dial value that is not one is replaced by
  \<^verbatim>\<open>lastSmallDialValue || 0\<close>.
\<close>

definition dials :: "env \<Rightarrow> world \<Rightarrow> world \<times> (exn + (real \<times> real) option)" where
  "dials env w =
     (case readPositionFile env w of
        (pos, w1) \<Rightarrow>
          let w2 = snd (readButtonFile env w1) in
          if pos = JNull \<or> pos = JUndefined then (w2, Inl TypeError)
          else
            (case finite_number (field ''x'' pos) of
               None \<Rightarrow> (w2, Inr None)
             | Some dialValue \<Rightarrow>
                 let smallDialValue =
                       (case finite_number (field ''y'' pos) of
                          Some y \<Rightarrow> y
                        | None \<Rightarrow> (case lastSmallDialValue w2 of Some v \<Rightarrow> v | None \<Rightarrow> 0))
                 in (w2, Inr (Some (dialValue, smallDialValue)))))"

definition maxDelta :: real where
  "maxDelta = 200"

text \<open>\<^verbatim>\<open>currentValue + delta\<close> and \<^verbatim>\<open>Math.max(0, Math.min(1, v))\<close> on a value that is a number.\<close>

fun num_add :: "jsval \<Rightarrow> real \<Rightarrow> jsval" where
  "num_add (JNum a) d = JNum (a + d)"
| "num_add v d = v"

fun clamp01 :: "jsval \<Rightarrow> jsval" where
  "clamp01 (JNum a) = JNum (max 0 (min 1 a))"
| "clamp01 (JInfinity s) = JNum (if s then 1 else 0)"
| "clamp01 v = v"

text \<open>
  The write of a new value (lines 1279 to 1288 and 1301 to 1310): at the current time
  when the property has keyframes, as the static value otherwise.
\<close>

definition writeValue :: "nat \<Rightarrow> jsval \<Rightarrow> world \<Rightarrow> exn + world" where
  "writeValue r v w =
     (let p = store (app w) r in
      if numKeys p > 0 then
        (case activeItem (app w) of
           None \<Rightarrow> Inl TypeError
         | Some c \<Rightarrow>
             (case setValueAtTime p (time c) v of
                Inl e \<Rightarrow> Inl e
              | Inr p' \<Rightarrow> Inr (setProp r p' w)))
      else
        (case setValue p v of
           Inl e \<Rightarrow> Inl e
         | Inr p' \<Rightarrow> Inr (setProp r p' w)))"

text \<open>
  The big dial (lines 1241 to 1320): the scaled delta is added to a number, or to the
  first component of an array (for a colour scaled by 0.01 and clamped to 0..1). The
  display of the first read (lines 1250 to 1261) cannot be reached, since the source
  has returned on a zero delta before. The sensitivity is what the source computes,
  \<^verbatim>\<open>parseFloat(sensInput.text) || 0.1\<close>, which is 0.1 for no number and for 0.
\<close>

definition bigSensitivity :: "world \<Rightarrow> real" where
  "bigSensitivity w = (case sensInput w of Some s \<Rightarrow> if s \<noteq> 0 then s else 0.1 | None \<Rightarrow> 0.1)"

definition applyBig :: "env \<Rightarrow> propinfo \<Rightarrow> real \<Rightarrow> world \<Rightarrow> world" where
  "applyBig env propInfo dialDelta w =
     (let r = pi_prop propInfo;
          currentValue = propValue env (app w) r;
          delta = dialDelta * bigSensitivity w;
          hasKeyframes = (numKeys (store (app w) r) > 0);
          suffix = (if hasKeyframes then [Lit '' (keyframe)''] else [])
      in if typeof_number currentValue then
           let newValue = num_add currentValue delta in
           (case writeValue r newValue w of
              Inl e \<Rightarrow> w\<lparr>statusText := [Lit ''Cannot set: '', Lit (message e)]\<rparr>
            | Inr w' \<Rightarrow>
                w'\<lparr>statusText := [Lit (pi_name propInfo), Lit '': '', Fixed2 newValue] @ suffix\<rparr>)
         else
           (case currentValue of
              JArr (first # others) \<Rightarrow>
                if typeof_number first then
                  let newFirst = (if pi_valueType propInfo = COLOR
                                  then clamp01 (num_add first (delta * 0.01))
                                  else num_add first delta)
                  in (case writeValue r (JArr (newFirst # others)) w of
                        Inl e \<Rightarrow> w\<lparr>statusText := [Lit ''Cannot set: '', Lit (message e)]\<rparr>
                      | Inr w' \<Rightarrow>
                          w'\<lparr>statusText :=
                               [Lit (pi_name propInfo), Lit ''[0]: '', Fixed2 newFirst] @ suffix\<rparr>)
                else w\<lparr>statusText := [Lit ''Array[0] not numeric'']\<rparr>
            | v \<Rightarrow> w\<lparr>statusText := [Lit ''Cannot adjust: '', TypeOf v]\<rparr>))"

text \<open>
  The small dial (lines 1226 to 1234) moves the time of the composition by frames.
  \<^verbatim>\<open>parseFloat(sensInputTimeline.text) || 1\<close> is 1 for no number and for 0.
\<close>

definition scrub :: "real \<Rightarrow> world \<Rightarrow> world" where
  "scrub smallDialDelta w =
     (case activeItem (app w) of
        None \<Rightarrow> w
      | Some c \<Rightarrow>
          let timelineSensitivity = (case sensInputTimeline w of
                                       Some s \<Rightarrow> if s \<noteq> 0 then s else 1
                                     | None \<Rightarrow> 1);
              frameDelta = smallDialDelta * timelineSensitivity;
              frameTime = frameDuration c;
              newTime = time c + frameDelta * frameTime
          in setTime (max 0 (min (duration c - frameTime) newTime)) w)"

text \<open>
  The deltas (lines 1200 to 1239): nothing to do when neither dial changed; a delta
  is the value minus the last value, 0 when there is no last value, and 0 when it is
  larger than \<open>maxDelta\<close>; both last values are then set to the values read.
\<close>

definition applyDial :: "env \<Rightarrow> propinfo \<Rightarrow> real \<Rightarrow> real \<Rightarrow> world \<Rightarrow> world" where
  "applyDial env propInfo dialValue smallDialValue w =
     (let bigDialChanged = (Some dialValue \<noteq> lastDialValue w);
          smallDialChanged = (Some smallDialValue \<noteq> lastSmallDialValue w)
      in if \<not> bigDialChanged \<and> \<not> smallDialChanged then w
         else
           let dialDelta0 = (case lastDialValue w of Some l \<Rightarrow> dialValue - l | None \<Rightarrow> 0);
               smallDialDelta0 =
                 (case lastSmallDialValue w of Some l \<Rightarrow> smallDialValue - l | None \<Rightarrow> 0);
               dialDelta = (if \<bar>dialDelta0\<bar> > maxDelta then 0 else dialDelta0);
               smallDialDelta = (if \<bar>smallDialDelta0\<bar> > maxDelta then 0 else smallDialDelta0);
               w1 = w\<lparr>lastDialValue := Some dialValue, lastSmallDialValue := Some smallDialValue\<rparr>;
               w2 = (if smallDialDelta \<noteq> 0 then scrub smallDialDelta w1 else w1)
           in if dialDelta = 0 then w2 else applyBig env propInfo dialDelta w2)"

definition updateProperty :: "env \<Rightarrow> world \<Rightarrow> world" where
  "updateProperty env w =
     (if \<not> isActive w then w
      else
        (case target env w of
           (w1, None) \<Rightarrow> w1
         | (w1, Some propInfo) \<Rightarrow>
             (case dials env w1 of
                (w2, Inl e) \<Rightarrow> w2\<lparr>statusText := [Lit ''Error: '', Lit (message e)]\<rparr>
              | (w2, Inr None) \<Rightarrow> w2
              | (w2, Inr (Some (dialValue, smallDialValue))) \<Rightarrow>
                  applyDial env propInfo dialValue smallDialValue w2)))"

section \<open>The scheduler's tick\<close>

text \<open>
  \<^verbatim>\<open>$.global.logiReceiverUpdate\<close>, which the host calls every 33 ms while the task
  \<^verbatim>\<open>logi_receiver_task_id\<close> is scheduled: the heartbeat, then the two steps inside a
  \<^verbatim>\<open>try\<close> whose handler writes the status line.
\<close>

definition logiReceiverUpdate :: "env \<Rightarrow> world \<Rightarrow> world" where
  "logiReceiverUpdate env w =
     (let w1 = w\<lparr>heartbeatText := ''HB: '' @ clock env\<rparr> in
      if isActive w1 then
        (case checkButtons env w1 of
           Raised e w2 \<Rightarrow> w2\<lparr>statusText := [Lit ''Scheduler error: '', Lit (message e)]\<rparr>
         | Done w2 \<Rightarrow> updateProperty env w2)
      else w1)"

text \<open>A run of the scheduler: one tick for each state of the outside, in order.\<close>

fun run :: "env list \<Rightarrow> world \<Rightarrow> world" where
  "run [] w = w"
| "run (env # envs) w = run envs (logiReceiverUpdate env w)"


section \<open>The first receiver script\<close>

text \<open>
  \<^verbatim>\<open>src/logi_receiver.jsx\<close> is the older script: one dial, one file, no buttons. Its
  variables are a part of the variables above and are kept in the same record; its
  functions that differ from the panel's carry the suffix \<open>_lr\<close>. Its
  \<^verbatim>\<open>getLayerEffects\<close>, \<^verbatim>\<open>getEffectProperties\<close> and \<^verbatim>\<open>populateProperties\<close> are the ones
  above (the labels of the list items differ, which are not modelled).
\<close>

definition readPositionFile_lr :: "env \<Rightarrow> world \<Rightarrow> jsval \<times> world" where
  "readPositionFile_lr env w =
     (case files env POSITION_FILE of
        None \<Rightarrow> (lastValidPosition w, w)
      | Some content0 \<Rightarrow>
          if content0 = [] then (lastValidPosition w, w)
          else
            let content = trim content0 in
            if \<not> braced content then (lastValidPosition w, w)
            else
              (case JSON_parse env content of
                 None \<Rightarrow> (lastValidPosition w, w)
               | Some parsed \<Rightarrow>
                   if typeof_number (field ''x'' parsed) \<and> typeof_number (field ''y'' parsed)
                      \<and> isFinite (field ''x'' parsed) \<and> isFinite (field ''y'' parsed)
                   then (parsed, w\<lparr>lastValidPosition := parsed\<rparr>)
                   else (lastValidPosition w, w)))"

definition populateEffects_lr :: "env \<Rightarrow> world \<Rightarrow> world" where
  "populateEffects_lr env w =
     (let w0 = w\<lparr>effectDropdown := None, propDropdown := None,
                 currentEffects := [], currentProperties := []\<rparr> in
      case activeItem (app w0) of
        None \<Rightarrow> w0\<lparr>effectDropdown := Some 0\<rparr>
      | Some c \<Rightarrow>
          (case selectedLayers c of
             [] \<Rightarrow> w0\<lparr>effectDropdown := Some 0\<rparr>
           | (i, l) # others \<Rightarrow>
               let w1 = w0\<lparr>currentEffects := getLayerEffects l\<rparr> in
               if length (currentEffects w1) = 0
               then w1\<lparr>effectDropdown := Some 0, propDropdown := Some 0\<rparr>
               else populateProperties env (w1\<lparr>effectDropdown := Some 0\<rparr>)))"

definition target_lr :: "env \<Rightarrow> world \<Rightarrow> world \<times> propinfo option" where
  "target_lr env w =
     (case activeItem (app w) of
        None \<Rightarrow> (w, None)
      | Some c \<Rightarrow>
          (case selectedLayers c of
             [] \<Rightarrow> (w, None)
           | (i, l) # others \<Rightarrow>
               let w1 = (if lName l \<noteq> lastLayerName w
                         then (populateEffects_lr env (w\<lparr>lastLayerName := lName l\<rparr>))
                                \<lparr>lastDialValue := None\<rparr>
                         else w)
               in (case effectDropdown w1 of
                     None \<Rightarrow> (w1, None)
                   | Some effectIdx \<Rightarrow>
                       if effectIdx \<ge> length (currentEffects w1) then (w1, None)
                       else
                         (case propDropdown w1 of
                            None \<Rightarrow> (w1, None)
                          | Some propIdx \<Rightarrow>
                              if propIdx \<ge> length (currentProperties w1) then (w1, None)
                              else (w1, Some (currentProperties w1 ! propIdx))))))"

definition maxDelta_lr :: real where
  "maxDelta_lr = 50"

text \<open>
  The write of this script (lines 460 to 491) is always \<^verbatim>\<open>setValue\<close>, which throws on
  a property with keyframes; the handler reports it.
\<close>

definition applyBig_lr :: "env \<Rightarrow> propinfo \<Rightarrow> real \<Rightarrow> world \<Rightarrow> world" where
  "applyBig_lr env propInfo dialDelta w =
     (let r = pi_prop propInfo;
          currentValue = propValue env (app w) r
      in if dialDelta = 0 then w\<lparr>statusText := [Lit ''Active - Rotate dial to adjust'']\<rparr>
         else
           let sensitivity = bigSensitivity w;
               delta = dialDelta * sensitivity
           in if typeof_number currentValue then
                let newValue = num_add currentValue delta in
                (case setValue (store (app w) r) newValue of
                   Inl e \<Rightarrow> w\<lparr>statusText := [Lit ''Cannot set: '', Lit (message e)]\<rparr>
                 | Inr p' \<Rightarrow>
                     (setProp r p' w)\<lparr>statusText := [Lit (pi_name propInfo), Lit '': '', Fixed2 newValue]\<rparr>)
              else
                (case currentValue of
                   JArr (first # others) \<Rightarrow>
                     if typeof_number first then
                       let newFirst = (if pi_valueType propInfo = COLOR
                                       then clamp01 (num_add first (delta * 0.01))
                                       else num_add first delta)
                       in (case setValue (store (app w) r) (JArr (newFirst # others)) of
                             Inl e \<Rightarrow> w\<lparr>statusText := [Lit ''Cannot set: '', Lit (message e)]\<rparr>
                           | Inr p' \<Rightarrow>
                               (setProp r p' w)\<lparr>statusText :=
                                  [Lit (pi_name propInfo), Lit ''[0]: '', Fixed2 newFirst]\<rparr>)
                     else w\<lparr>statusText := [Lit ''Array[0] not numeric'']\<rparr>
                 | v \<Rightarrow> w\<lparr>statusText := [Lit ''Cannot adjust: '', TypeOf v]\<rparr>))"

text \<open>
  \<^verbatim>\<open>updateProperty\<close> of this script (lines 365 to 496). A delta above \<open>maxDelta\<close> sets
  the last value and returns.
\<close>

definition updateProperty_lr :: "env \<Rightarrow> world \<Rightarrow> world" where
  "updateProperty_lr env w =
     (if \<not> isActive w then w
      else
        (case target_lr env w of
           (w1, None) \<Rightarrow> w1
         | (w1, Some propInfo) \<Rightarrow>
             (case readPositionFile_lr env w1 of
                (pos, w2) \<Rightarrow>
                  if pos = JNull \<or> pos = JUndefined
                  then w2\<lparr>statusText := [Lit ''Error: '', Lit (message TypeError)]\<rparr>
                  else
                    (case finite_number (field ''x'' pos) of
                       None \<Rightarrow> w2
                     | Some dialValue \<Rightarrow>
                         if Some dialValue = lastDialValue w2 then w2
                         else
                           let dialDelta = (case lastDialValue w2 of
                                              Some l \<Rightarrow> dialValue - l | None \<Rightarrow> 0)
                           in if \<bar>dialDelta\<bar> > maxDelta_lr
                              then w2\<lparr>lastDialValue := Some dialValue\<rparr>
                              else applyBig_lr env propInfo dialDelta
                                     (w2\<lparr>lastDialValue := Some dialValue\<rparr>)))))"

section \<open>Notions used to state the properties\<close>

text \<open>
  The paths that \<^verbatim>\<open>readPositionFile\<close> and \<^verbatim>\<open>readButtonFile\<close> try: the primary path,
  then one path for each candidate folder that is not empty.
\<close>

definition positionPaths :: "world \<Rightarrow> string list" where
  "positionPaths w =
     POSITION_FILE #
     map (\<lambda>c. stripSlash c @ ''/logi_position.json'') (filter (\<lambda>c. c \<noteq> []) (fallbackCandidates w))"

definition buttonPaths :: "world \<Rightarrow> string list" where
  "buttonPaths w =
     BUTTON_FILE #
     map (\<lambda>c. stripSlash c @ ''/logi_button.json'') (filter (\<lambda>c. c \<noteq> []) (fallbackCandidates w))"

text \<open>
  A content passes the guards of the position read when it is not empty, is braced
  after trimming, parses, and has finite numbers \<open>x\<close> and \<open>y\<close>. A path fails when the
  file is missing or its content does not pass. For the button read the guards are
  the first three.
\<close>

definition position_record_ok :: "env \<Rightarrow> string \<Rightarrow> bool" where
  "position_record_ok env c =
     (c \<noteq> [] \<and> braced (trim c) \<and>
      (case JSON_parse env (trim c) of
         None \<Rightarrow> False
       | Some parsed \<Rightarrow>
           finite_number (field ''x'' parsed) \<noteq> None \<and> finite_number (field ''y'' parsed) \<noteq> None))"

definition position_fails :: "env \<Rightarrow> string \<Rightarrow> bool" where
  "position_fails env path =
     (case files env path of None \<Rightarrow> True | Some c \<Rightarrow> \<not> position_record_ok env c)"

definition button_record_ok :: "env \<Rightarrow> string \<Rightarrow> bool" where
  "button_record_ok env c = (c \<noteq> [] \<and> braced (trim c) \<and> JSON_parse_button env (trim c) \<noteq> None)"

definition button_fails :: "env \<Rightarrow> string \<Rightarrow> bool" where
  "button_fails env path =
     (case files env path of None \<Rightarrow> True | Some c \<Rightarrow> \<not> button_record_ok env c)"

text \<open>
  \<open>only_read w w'\<close>: the state \<open>w'\<close> differs from \<open>w\<close> at most in the four variables that
  the two reads assign (the raw contents, the position marker, the last valid
  position). The selections, the enumerated effects and properties, the dial and
  button baselines, the mappings, the status line and the host are the same.
\<close>

definition only_read :: "world \<Rightarrow> world \<Rightarrow> bool" where
  "only_read w w' =
     (app w' = app w \<and> isActive w' = isActive w \<and> lastDialValue w' = lastDialValue w
      \<and> lastSmallDialValue w' = lastSmallDialValue w \<and> lastLayerName w' = lastLayerName w
      \<and> currentEffects w' = currentEffects w \<and> currentProperties w' = currentProperties w
      \<and> lastButtonTimestamp w' = lastButtonTimestamp w \<and> mappingsCache w' = mappingsCache w
      \<and> isLoadingMappings w' = isLoadingMappings w \<and> fallbackCandidates w' = fallbackCandidates w
      \<and> effectDropdown w' = effectDropdown w \<and> propDropdown w' = propDropdown w
      \<and> keypadDropdowns w' = keypadDropdowns w \<and> sensInput w' = sensInput w
      \<and> sensInputTimeline w' = sensInputTimeline w \<and> statusText w' = statusText w
      \<and> heartbeatText w' = heartbeatText w \<and> logi_receiver_task_id w' = logi_receiver_task_id w)"

text \<open>
  \<open>kept w w'\<close>: the variables that no step of a tick assigns are the same in \<open>w'\<close>:
  whether the panel is active, the scheduled task, the heartbeat, the button marker
  (only \<^verbatim>\<open>checkButtons\<close> itself assigns it), the candidate folders and the sensitivities.
\<close>

definition kept :: "world \<Rightarrow> world \<Rightarrow> bool" where
  "kept w w' =
     (isActive w' = isActive w \<and> logi_receiver_task_id w' = logi_receiver_task_id w
      \<and> heartbeatText w' = heartbeatText w \<and> lastButtonTimestamp w' = lastButtonTimestamp w
      \<and> fallbackCandidates w' = fallbackCandidates w \<and> sensInput w' = sensInput w
      \<and> sensInputTimeline w' = sensInputTimeline w)"

text \<open>
  \<open>accepted env w name\<close>: in this tick \<^verbatim>\<open>checkButtons\<close> reads a record that names the
  button \<open>name\<close>, is a press, and carries a marker above the last accepted one.
\<close>

definition accepted :: "env \<Rightarrow> world \<Rightarrow> string \<Rightarrow> bool" where
  "accepted env w name =
     (case fst (readButtonFile env w) of
        None \<Rightarrow> False
      | Some b \<Rightarrow>
          button b = name \<and> pressed b
          \<and> lastButtonTimestamp w < (case timestamp b of Some t \<Rightarrow> t | None \<Rightarrow> 0))"

text \<open>
  \<open>marker_only w w'\<close>: apart from what the reads assign, \<open>w'\<close> differs from \<open>w\<close> at most in
  the last accepted marker: no selection, no list and nothing in the host has changed.
\<close>

definition marker_only :: "world \<Rightarrow> world \<Rightarrow> bool" where
  "marker_only w w' = only_read (w\<lparr>lastButtonTimestamp := lastButtonTimestamp w'\<rparr>) w'"

text \<open>
  Presence of a keyframe at the time \<open>t\<close>, as button 8 tests it: some keyframe lies
  less than 0.001 away. \<open>nearCount\<close> is the number of such keyframes.
\<close>

definition keyframeNear :: "property \<Rightarrow> real \<Rightarrow> bool" where
  "keyframeNear p t = (\<exists>k\<in>set (keys p). \<bar>fst k - t\<bar> < 0.001)"

definition nearCount :: "property \<Rightarrow> real \<Rightarrow> nat" where
  "nearCount p t = length (filter (\<lambda>k. \<bar>fst k - t\<bar> < 0.001) (keys p))"

text \<open>
  \<open>beforeBig x y w\<close>: the state in which \<^verbatim>\<open>updateProperty\<close> reads the property for the big
  dial, when the dial values \<open>x\<close> and \<open>y\<close> were read in the state \<open>w\<close>: both last values
  are set, and the small dial has moved the time if its delta is neither 0 nor above
  \<open>maxDelta\<close> (lines 1209 to 1234).
\<close>

definition beforeBig :: "real \<Rightarrow> real \<Rightarrow> world \<Rightarrow> world" where
  "beforeBig x y w =
     (let d = (case lastSmallDialValue w of Some l \<Rightarrow> y - l | None \<Rightarrow> 0);
          w1 = w\<lparr>lastDialValue := Some x, lastSmallDialValue := Some y\<rparr>
      in if d \<noteq> 0 \<and> \<not> \<bar>d\<bar> > maxDelta then scrub d w1 else w1)"

section \<open>Example states\<close>

text \<open>
  A composition with three layers; the first is selected and carries three effects.
  The store holds a number, a colour and a number with two keyframes 0.8 ms apart.
\<close>

definition scalarProp :: property where
  "scalarProp = \<lparr>staticValue = JNum 50, keys = [], propertyValueType = OTHER_TYPE, canSetValue = True\<rparr>"

definition colorProp :: property where
  "colorProp = \<lparr>staticValue = JArr [JNum 0.95, JNum 0.5, JNum 0.25, JNum 1], keys = [],
                 propertyValueType = COLOR, canSetValue = True\<rparr>"

definition keyedProp :: property where
  "keyedProp = \<lparr>staticValue = JNum 0, keys = [(0.9996, JNum 1), (1.0004, JNum 2)],
                 propertyValueType = OTHER_TYPE, canSetValue = True\<rparr>"

definition store0 :: "nat \<Rightarrow> property" where
  "store0 r = (if r = 0 then scalarProp else if r = 1 then colorProp else keyedProp)"

definition glow :: effect where
  "glow = \<lparr>eName = ''Glow'',
           children = [Leaf ''Opacity'' ''glow-opacity'' 0,
                       Group ''Colors'' ''glow-colors'' [Leaf ''Color A'' ''glow-color-a'' 1],
                       Leaf ''Radius'' ''glow-radius'' 2]\<rparr>"

definition blur :: effect where
  "blur = \<lparr>eName = ''Blur'', children = [Leaf ''Amount'' ''blur-amount'' 0]\<rparr>"

definition tint :: effect where
  "tint = \<lparr>eName = ''Tint'', children = [Leaf ''Map White To'' ''tint-white'' 1]\<rparr>"

definition layerA :: layer where
  "layerA = \<lparr>lName = ''Layer A'', selected = True, effects = [glow, blur, tint]\<rparr>"

definition layerB :: layer where
  "layerB = \<lparr>lName = ''Layer B'', selected = False, effects = []\<rparr>"

definition layerC :: layer where
  "layerC = \<lparr>lName = ''Layer C'', selected = False, effects = [blur]\<rparr>"

definition comp0 :: comp where
  "comp0 = \<lparr>layers = [layerA, layerB, layerC], time = 1, duration = 10, frameDuration = 0.04\<rparr>"

definition host0 :: host where
  "host0 = \<lparr>activeItem = Some comp0, store = store0\<rparr>"

text \<open>
  The parser of the examples knows a few file contents; on every other text it throws.
\<close>

definition pos :: "real \<Rightarrow> real \<Rightarrow> jsval" where
  "pos x y = JObj [(''x'', JNum x), (''y'', JNum y)]"

definition parse0 :: "string \<Rightarrow> jsval option" where
  "parse0 = map_of
     [(''{x:10,y:0}'', pos 10 0), (''{x:15,y:0}'', pos 15 0), (''{x:20,y:0}'', pos 20 0),
      (''{x:500,y:0}'', pos 500 0), (''{x:505,y:0}'', pos 505 0), (''{x:10,y:300}'', pos 10 300),
      (''{x:oops}'', JObj [(''x'', JStr ''oops''), (''y'', JNum 0)])]"

definition btn :: "string \<Rightarrow> real \<Rightarrow> btnData" where
  "btn name ts = \<lparr>button = name, pressed = True, timestamp = Some ts\<rparr>"

definition parseB0 :: "string \<Rightarrow> btnData option" where
  "parseB0 = map_of
     [(''{TOP RIGHT,1000}'', btn ''TOP RIGHT'' 1000), (''{TOP LEFT,1000}'', btn ''TOP LEFT'' 1000),
      (''{BOTTOM RIGHT,1000}'', btn ''BOTTOM RIGHT'' 1000),
      (''{BOTTOM LEFT,1000}'', btn ''BOTTOM LEFT'' 1000),
      (''{TOP RIGHT,0}'', btn ''TOP RIGHT'' 0),
      (''{TOP RIGHT}'', \<lparr>button = ''TOP RIGHT'', pressed = True, timestamp = None\<rparr>),
      (''{8,1000}'', btn ''8'' 1000),
      (''{,1000}'', \<lparr>button = [], pressed = True, timestamp = Some 1000\<rparr>)]"

definition env0 :: "(string \<times> string) list \<Rightarrow> env" where
  "env0 fs = \<lparr>files = map_of fs, JSON_parse = parse0, JSON_parse_button = parseB0,
              interp = (\<lambda>ks t. snd (hd ks)),
              inherited = (\<lambda>n. n \<in> set [''constructor'', ''toString'', ''valueOf'']),
              clock = ''12:00:00''\<rparr>"

text \<open>
  The panel after \<^verbatim>\<open>startPolling\<close> on this composition, with the first effect and its
  first property selected, and with a position \<open>{x: 10, y: 0}\<close> read before.
\<close>

definition world0 :: world where
  "world0 =
     \<lparr>app = host0, isActive = True, lastDialValue = Some 10, lastSmallDialValue = Some 0,
      lastLayerName = ''Layer A'',
      currentEffects = getLayerEffects layerA,
      currentProperties = getEffectProperties (env0 []) host0 [] 1 (children glow),
      lastButtonTimestamp = 0, mappingsCache = [], isLoadingMappings = False,
      lastRawPositionContent = ''{x:10,y:0}'', lastRawButtonContent = [],
      lastPositionTS = JNum 0, lastValidPosition = pos 10 0,
      fallbackCandidates = [''D:/tmp/'', ''C:/temp'', []],
      effectDropdown = Some 0, propDropdown = Some 0,
      keypadDropdowns = [Some 0, Some 0, Some 0, Some 0, Some 0, Some 0],
      sensInput = Some 0.1, sensInputTimeline = Some 1,
      statusText = [], heartbeatText = [], logi_receiver_task_id = Some 1\<rparr>"

text \<open>
  An outside where no candidate gives a record: the primary files are torn or are
  not records, one fallback holds a record whose \<open>x\<close> is not a number, the others are
  missing. And an outside with a button record at the primary path.
\<close>

definition envBad :: env where
  "envBad = env0 [(''D:/tmp/logi_position.json'', ''{x:oops}''), (POSITION_FILE, ''  {x:1''),
                  (BUTTON_FILE, ''TOP'')]"

definition envTopRight :: env where
  "envTopRight = env0 [(BUTTON_FILE, ''{TOP RIGHT,1000}'')]"

definition envZero :: env where
  "envZero = env0 [(BUTTON_FILE, ''{TOP RIGHT,0}'')]"

definition envAbsent :: env where
  "envAbsent = env0 [(BUTTON_FILE, ''{TOP RIGHT}'')]"

text \<open>Presses of the four directional buttons, and of button 8, with the marker 1000.\<close>

definition envTopLeft :: env where
  "envTopLeft = env0 [(BUTTON_FILE, ''{TOP LEFT,1000}'')]"

definition envBottomRight :: env where
  "envBottomRight = env0 [(BUTTON_FILE, ''{BOTTOM RIGHT,1000}'')]"

definition envBottomLeft :: env where
  "envBottomLeft = env0 [(BUTTON_FILE, ''{BOTTOM LEFT,1000}'')]"

text \<open>
  Variants of the example state: the last of the three effects selected; the last of
  the three layers selected; one effect only; one layer only.
\<close>

definition worldLast :: world where
  "worldLast = world0\<lparr>effectDropdown := Some 2\<rparr>"

definition compC :: comp where
  "compC = comp0\<lparr>layers := [layerA\<lparr>selected := False\<rparr>, layerB, layerC\<lparr>selected := True\<rparr>]\<rparr>"

definition worldC :: world where
  "worldC = world0\<lparr>app := host0\<lparr>activeItem := Some compC\<rparr>\<rparr>"

definition worldOne :: world where
  "worldOne = world0\<lparr>currentEffects := getLayerEffects (layerA\<lparr>effects := [glow]\<rparr>)\<rparr>"

definition compSolo :: comp where
  "compSolo = comp0\<lparr>layers := [layerA]\<rparr>"

definition worldSolo :: world where
  "worldSolo = world0\<lparr>app := host0\<lparr>activeItem := Some compSolo\<rparr>\<rparr>"





text \<open>A button record with the marker 1000 and no button name.\<close>

definition envNoName :: env where
  "envNoName = env0 [(BUTTON_FILE, ''{,1000}'')]"

text \<open>
  An outside with a position record at the primary path; the panel with no last value
  of the big dial; and the panel with the colour of the first effect selected and a
  sensitivity of 1.
\<close>

definition envPos :: "string \<Rightarrow> env" where
  "envPos c = env0 [(POSITION_FILE, c)]"



section \<open>Reading when every candidate fails\<close>

lemma finite_number_None: "finite_number v = None \<longleftrightarrow> \<not> (typeof_number v \<and> isFinite v)"
  by (cases v) (simp_all add: finite_number_def)

lemma tryPath_fails:
  assumes "position_fails env path"
  shows "(fst (tryPath env path w) = JNull \<or> fst (tryPath env path w) = lastValidPosition w)
         \<and> lastValidPosition (snd (tryPath env path w)) = lastValidPosition w
         \<and> fallbackCandidates (snd (tryPath env path w)) = fallbackCandidates w"
  using assms
  by (auto simp: tryPath_def position_fails_def position_record_ok_def finite_number_None Let_def
           split: option.splits)

lemma tryFallbacks_fails:
  assumes "\<forall>c\<in>set cs. c \<noteq> [] \<longrightarrow> position_fails env (stripSlash c @ ''/logi_position.json'')"
  shows "(fst (tryFallbacks env cs w) = JNull \<or> fst (tryFallbacks env cs w) = lastValidPosition w)
         \<and> lastValidPosition (snd (tryFallbacks env cs w)) = lastValidPosition w"
  using assms
proof (induction cs arbitrary: w)
  case Nil
  then show ?case by simp
next
  case (Cons c cs)
  show ?case
  proof (cases "c = []")
    case True
    with Cons show ?thesis by simp
  next
    case False
    with Cons.prems have f: "position_fails env (stripSlash c @ ''/logi_position.json'')" by simp
    obtain res w1 where t: "tryPath env (stripSlash c @ ''/logi_position.json'') w = (res, w1)"
      by (cases "tryPath env (stripSlash c @ ''/logi_position.json'') w")
    from tryPath_fails[OF f, of w] t
    have r: "res = JNull \<or> res = lastValidPosition w" and l: "lastValidPosition w1 = lastValidPosition w"
      by simp_all
    from Cons.IH[of w1] Cons.prems
    have ih: "(fst (tryFallbacks env cs w1) = JNull \<or> fst (tryFallbacks env cs w1) = lastValidPosition w1)
         \<and> lastValidPosition (snd (tryFallbacks env cs w1)) = lastValidPosition w1" by simp
    show ?thesis using False t r l ih by auto
  qed
qed

lemma readPositionFile_fails:
  assumes "\<forall>p\<in>set (positionPaths w). position_fails env p"
  shows "fst (readPositionFile env w) = lastValidPosition w
         \<and> lastValidPosition (snd (readPositionFile env w)) = lastValidPosition w"
proof -
  let ?w0 = "w\<lparr>lastRawPositionContent := []\<rparr>"
  obtain res w1 where t: "tryPath env POSITION_FILE ?w0 = (res, w1)"
    by (cases "tryPath env POSITION_FILE ?w0")
  from assms have f: "position_fails env POSITION_FILE" by (simp add: positionPaths_def)
  from tryPath_fails[OF f, of ?w0] t
  have r: "res = JNull \<or> res = lastValidPosition w" and l: "lastValidPosition w1 = lastValidPosition w"
    and c: "fallbackCandidates w1 = fallbackCandidates w"
    by simp_all
  obtain res2 w2 where t2: "tryFallbacks env (fallbackCandidates w1) w1 = (res2, w2)"
    by (cases "tryFallbacks env (fallbackCandidates w1) w1")
  from assms c
  have "\<forall>c\<in>set (fallbackCandidates w1). c \<noteq> [] \<longrightarrow> position_fails env (stripSlash c @ ''/logi_position.json'')"
    by (auto simp: positionPaths_def)
  from tryFallbacks_fails[OF this, of w1] t2
  have r2: "res2 = JNull \<or> res2 = lastValidPosition w1" and l2: "lastValidPosition w2 = lastValidPosition w1"
    by simp_all
  show ?thesis
    using t t2 r l r2 l2 by (auto simp: readPositionFile_def Let_def)
qed

lemma tryPathB_fails:
  assumes "button_fails env path"
  shows "fst (tryPathB env path w) = None
         \<and> fallbackCandidates (snd (tryPathB env path w)) = fallbackCandidates w"
  using assms
  by (auto simp: tryPathB_def button_fails_def button_record_ok_def Let_def split: option.splits)

lemma tryFallbacksB_fails:
  assumes "\<forall>c\<in>set cs. c \<noteq> [] \<longrightarrow> button_fails env (stripSlash c @ ''/logi_button.json'')"
  shows "fst (tryFallbacksB env cs w) = None"
  using assms
proof (induction cs arbitrary: w)
  case Nil
  then show ?case by simp
next
  case (Cons c cs)
  show ?case
  proof (cases "c = []")
    case True
    with Cons show ?thesis by simp
  next
    case False
    with Cons.prems have f: "button_fails env (stripSlash c @ ''/logi_button.json'')" by simp
    obtain res w1 where t: "tryPathB env (stripSlash c @ ''/logi_button.json'') w = (res, w1)"
      by (cases "tryPathB env (stripSlash c @ ''/logi_button.json'') w")
    from tryPathB_fails[OF f, of w] t have r: "res = None" by simp
    from Cons.IH[of w1] Cons.prems have "fst (tryFallbacksB env cs w1) = None" by simp
    then show ?thesis using False t r by simp
  qed
qed

lemma readButtonFile_fails:
  assumes "\<forall>p\<in>set (buttonPaths w). button_fails env p"
  shows "fst (readButtonFile env w) = None"
proof -
  let ?w0 = "w\<lparr>lastRawButtonContent := []\<rparr>"
  obtain res w1 where t: "tryPathB env BUTTON_FILE ?w0 = (res, w1)"
    by (cases "tryPathB env BUTTON_FILE ?w0")
  from assms have f: "button_fails env BUTTON_FILE" by (simp add: buttonPaths_def)
  from tryPathB_fails[OF f, of ?w0] t
  have r: "res = None" and c: "fallbackCandidates w1 = fallbackCandidates w"
    by simp_all
  obtain res2 w2 where t2: "tryFallbacksB env (fallbackCandidates w1) w1 = (res2, w2)"
    by (cases "tryFallbacksB env (fallbackCandidates w1) w1")
  from assms c
  have "\<forall>c\<in>set (fallbackCandidates w1). c \<noteq> [] \<longrightarrow> button_fails env (stripSlash c @ ''/logi_button.json'')"
    by (auto simp: buttonPaths_def)
  from tryFallbacksB_fails[OF this, of w1] t2 have r2: "res2 = None" by simp
  show ?thesis using t t2 r r2 by (simp add: readButtonFile_def Let_def)
qed


section \<open>What the reads and the blocks leave alone\<close>

lemma only_read_refl: "only_read w w" by (simp add: only_read_def)
lemma only_read_trans: "only_read a b \<Longrightarrow> only_read b c \<Longrightarrow> only_read a c"
  by (simp add: only_read_def)

lemma tryPath_only_read: "only_read w (snd (tryPath env p w))"
  by (simp add: only_read_def tryPath_def Let_def split: option.splits)

lemma tryFallbacks_only_read: "only_read w (snd (tryFallbacks env cs w))"
proof (induction cs arbitrary: w)
  case Nil
  show ?case by (simp add: only_read_refl)
next
  case (Cons c cs)
  show ?case
  proof (cases "tryPath env (stripSlash c @ ''/logi_position.json'') w")
    case (Pair res w1)
    have a: "only_read w w1" using tryPath_only_read[of w env "stripSlash c @ ''/logi_position.json''"] Pair by simp
    have b: "only_read w1 (snd (tryFallbacks env cs w1))" by (rule Cons.IH)
    show ?thesis using Pair a only_read_trans[OF a b] Cons.IH[of w] by simp
  qed
qed

lemma readPositionFile_only_read: "only_read w (snd (readPositionFile env w))"
proof -
  let ?w0 = "w\<lparr>lastRawPositionContent := []\<rparr>"
  have a: "only_read w ?w0" by (simp add: only_read_def)
  obtain res w1 where t: "tryPath env POSITION_FILE ?w0 = (res, w1)" by (cases "tryPath env POSITION_FILE ?w0")
  have b: "only_read ?w0 w1" using tryPath_only_read[of ?w0 env POSITION_FILE] t by simp
  obtain res2 w2 where t2: "tryFallbacks env (fallbackCandidates w1) w1 = (res2, w2)"
    by (cases "tryFallbacks env (fallbackCandidates w1) w1")
  have c: "only_read w1 w2" using tryFallbacks_only_read[of w1 env "fallbackCandidates w1"] t2 by simp
  have d: "only_read w2 (w2\<lparr>lastRawPositionContent := ''(missing)''\<rparr>)" by (simp add: only_read_def)
  from a b have ab: "only_read w w1" by (rule only_read_trans)
  from ab c have abc: "only_read w w2" by (rule only_read_trans)
  from abc d have abcd: "only_read w (w2\<lparr>lastRawPositionContent := ''(missing)''\<rparr>)" by (rule only_read_trans)
  show ?thesis using t t2 ab abc abcd by (simp add: readPositionFile_def Let_def)
qed

lemma tryPathB_only_read: "only_read w (snd (tryPathB env p w))"
  by (simp add: only_read_def tryPathB_def Let_def split: option.splits)

lemma tryFallbacksB_only_read: "only_read w (snd (tryFallbacksB env cs w))"
proof (induction cs arbitrary: w)
  case Nil
  show ?case by (simp add: only_read_refl)
next
  case (Cons c cs)
  show ?case
  proof (cases "tryPathB env (stripSlash c @ ''/logi_button.json'') w")
    case (Pair res w1)
    have a: "only_read w w1" using tryPathB_only_read[of w env "stripSlash c @ ''/logi_button.json''"] Pair by simp
    have b: "only_read w1 (snd (tryFallbacksB env cs w1))" by (rule Cons.IH)
    show ?thesis using Pair a only_read_trans[OF a b] Cons.IH[of w] by (simp split: option.splits)
  qed
qed

lemma readButtonFile_only_read: "only_read w (snd (readButtonFile env w))"
proof -
  let ?w0 = "w\<lparr>lastRawButtonContent := []\<rparr>"
  have a: "only_read w ?w0" by (simp add: only_read_def)
  obtain res w1 where t: "tryPathB env BUTTON_FILE ?w0 = (res, w1)" by (cases "tryPathB env BUTTON_FILE ?w0")
  have b: "only_read ?w0 w1" using tryPathB_only_read[of ?w0 env BUTTON_FILE] t by simp
  obtain res2 w2 where t2: "tryFallbacksB env (fallbackCandidates w1) w1 = (res2, w2)"
    by (cases "tryFallbacksB env (fallbackCandidates w1) w1")
  have c: "only_read w1 w2" using tryFallbacksB_only_read[of w1 env "fallbackCandidates w1"] t2 by simp
  have d: "only_read w2 (w2\<lparr>lastRawButtonContent := ''(missing)''\<rparr>)" by (simp add: only_read_def)
  from a b have ab: "only_read w w1" by (rule only_read_trans)
  from ab c have abc: "only_read w w2" by (rule only_read_trans)
  from abc d have abcd: "only_read w (w2\<lparr>lastRawButtonContent := ''(missing)''\<rparr>)" by (rule only_read_trans)
  show ?thesis using t t2 ab abc abcd by (simp add: readButtonFile_def Let_def split: option.splits)
qed

lemma kept_refl: "kept w w" by (simp add: kept_def)
lemma kept_trans: "kept a b \<Longrightarrow> kept b c \<Longrightarrow> kept a c" by (simp add: kept_def)
lemma only_read_kept: "only_read w w' \<Longrightarrow> kept w w'" by (simp add: only_read_def kept_def)

lemma populateProperties_kept: "kept w (populateProperties env w)"
  by (simp add: kept_def populateProperties_def Let_def split: option.splits)
lemma updateKeypadDropdowns_kept: "kept w (updateKeypadDropdowns w)"
  by (simp add: kept_def updateKeypadDropdowns_def)
lemma autoLoadMappings_kept: "kept w (autoLoadMappings env w)"
  by (simp add: kept_def autoLoadMappings_def Let_def split: option.splits)
lemma populateEffects_kept: "kept w (populateEffects env w)"
proof -
  have "\<And>v. kept w v \<Longrightarrow> kept w (autoLoadMappings env (updateKeypadDropdowns (populateProperties env v)))"
    by (meson kept_trans populateProperties_kept updateKeypadDropdowns_kept autoLoadMappings_kept)
  moreover have "\<And>l. kept w (w\<lparr>effectDropdown := None, propDropdown := None, currentEffects := [],
       currentProperties := [], currentEffects := getLayerEffects l, effectDropdown := Some 0\<rparr>)"
    by (simp add: kept_def)
  ultimately show ?thesis
    by (auto simp: populateEffects_def Let_def kept_def split: option.splits list.splits)
qed


lemma selectLayerByIndex_kept: "kept w (selectLayerByIndex env k w)"
proof -
  have "\<And>v. kept w v \<Longrightarrow> kept w ((populateEffects env v)\<lparr>statusText := s\<rparr>)" for s
    using populateEffects_kept by (simp add: kept_def)
  then show ?thesis
    by (simp add: selectLayerByIndex_def Let_def kept_refl kept_def split: option.splits)
qed

lemma topButtons_kept: "kept w (state_of (topButtons env b w))"
proof -
  have a: "\<And>i. kept w (updateKeypadDropdowns (populateProperties env (w\<lparr>effectDropdown := Some i\<rparr>)))"
  proof -
    fix i
    have "kept w (w\<lparr>effectDropdown := Some i\<rparr>)" by (simp add: kept_def)
    then show "kept w (updateKeypadDropdowns (populateProperties env (w\<lparr>effectDropdown := Some i\<rparr>)))"
      by (meson kept_trans populateProperties_kept updateKeypadDropdowns_kept)
  qed
  show ?thesis
    using a by (simp add: topButtons_def Let_def kept_refl kept_def)
qed

lemma bottomButtons_kept: "kept w (bottomButtons env b w)"
  by (simp add: bottomButtons_def Let_def kept_refl selectLayerByIndex_kept split: option.splits)

lemma keypadSelect_kept: "kept w (keypadSelect b w)"
  by (simp add: keypadSelect_def Let_def kept_def split: option.splits)

lemma prevKeyframe_kept: "kept w (prevKeyframe b w)"
  by (simp add: prevKeyframe_def Let_def kept_def setTime_def split: option.splits sum.splits)

lemma toggleKeyframe_kept: "kept w (toggleKeyframe env b w)"
  by (simp add: toggleKeyframe_def Let_def kept_def setProp_def split: option.splits sum.splits)

lemma nextKeyframe_kept: "kept w (nextKeyframe b w)"
  by (simp add: nextKeyframe_def Let_def kept_def setTime_def split: option.splits sum.splits)

lemma blocks_kept:
  "kept w (state_of (andThen (topButtons env b w)
     (\<lambda>w4. Done (nextKeyframe b (toggleKeyframe env b (prevKeyframe b (keypadSelect b (bottomButtons env b w4))))))))"
proof (cases "topButtons env b w")
  case (Done w4)
  have "kept w w4" using topButtons_kept[of w env b] Done by simp
  then show ?thesis using Done
    by (simp) (meson kept_trans bottomButtons_kept keypadSelect_kept prevKeyframe_kept toggleKeyframe_kept nextKeyframe_kept)
next
  case (Raised e w4)
  then show ?thesis using topButtons_kept[of w env b] by simp
qed


section \<open>Markers of button records\<close>

text \<open>What \<^verbatim>\<open>checkButtons\<close> does with a record, in terms of the state after the two reads.\<close>

lemma checkButtons_ignored:
  assumes "readButtonFile env w = (Some b, wa)"
    and "(case timestamp b of Some t \<Rightarrow> t | None \<Rightarrow> 0) \<le> lastButtonTimestamp w"
  shows "checkButtons env w = Done (snd (readPositionFile env wa)) \<and> only_read w (snd (readPositionFile env wa))"
proof -
  have a: "only_read w wa" using readButtonFile_only_read[of w env] assms(1) by simp
  have b: "only_read wa (snd (readPositionFile env wa))" by (rule readPositionFile_only_read)
  from a b have c: "only_read w (snd (readPositionFile env wa))" by (rule only_read_trans)
  then have "lastButtonTimestamp (snd (readPositionFile env wa)) = lastButtonTimestamp w"
    by (simp add: only_read_def)
  then show ?thesis using assms c by (simp add: checkButtons_def Let_def)
qed

lemma checkButtons_marker:
  assumes "readButtonFile env w = (Some b, wa)" and "button b \<noteq> []"
  shows "lastButtonTimestamp (state_of (checkButtons env w))
         = max (lastButtonTimestamp w) (case timestamp b of Some t \<Rightarrow> t | None \<Rightarrow> 0)"
proof -
  let ?ts = "case timestamp b of Some t \<Rightarrow> t | None \<Rightarrow> 0"
  let ?w2 = "snd (readPositionFile env wa)"
  have a: "only_read w wa" using readButtonFile_only_read[of w env] assms(1) by simp
  have b: "only_read wa ?w2" by (rule readPositionFile_only_read)
  from a b have "only_read w ?w2" by (rule only_read_trans)
  then have l: "lastButtonTimestamp ?w2 = lastButtonTimestamp w" by (simp add: only_read_def)
  show ?thesis
  proof (cases "?ts \<le> lastButtonTimestamp w")
    case True
    then show ?thesis using assms l by (simp add: checkButtons_def Let_def)
  next
    case False
    let ?w3 = "?w2\<lparr>lastButtonTimestamp := ?ts\<rparr>"
    have k: "lastButtonTimestamp (state_of (andThen (topButtons env (button b) ?w3)
       (\<lambda>w4. Done (nextKeyframe (button b) (toggleKeyframe env (button b) (prevKeyframe (button b)
          (keypadSelect (button b) (bottomButtons env (button b) w4)))))))) = ?ts"
      using blocks_kept[of ?w3 env "button b"] by (simp add: kept_def)
    show ?thesis using False assms l k by (simp add: checkButtons_def Let_def)
  qed
qed


lemma checkButtons_no_record:
  assumes "readButtonFile env w = (None, wa)"
  shows "checkButtons env w = Done (snd (readPositionFile env wa)) \<and> only_read w (snd (readPositionFile env wa))"
proof -
  have a: "only_read w wa" using readButtonFile_only_read[of w env] assms(1) by simp
  have b: "only_read wa (snd (readPositionFile env wa))" by (rule readPositionFile_only_read)
  from a b have c: "only_read w (snd (readPositionFile env wa))" by (rule only_read_trans)
  then show ?thesis using assms by (simp add: checkButtons_def Let_def)
qed

lemma checkButtons_no_name:
  assumes "readButtonFile env w = (Some b, wa)" and "button b = []"
  shows "checkButtons env w = Done (snd (readPositionFile env wa)) \<and> only_read w (snd (readPositionFile env wa))"
proof -
  have a: "only_read w wa" using readButtonFile_only_read[of w env] assms(1) by simp
  have b: "only_read wa (snd (readPositionFile env wa))" by (rule readPositionFile_only_read)
  from a b have c: "only_read w (snd (readPositionFile env wa))" by (rule only_read_trans)
  then show ?thesis using assms by (simp add: checkButtons_def Let_def)
qed

lemma checkButtons_marker_mono:
  "lastButtonTimestamp w \<le> lastButtonTimestamp (state_of (checkButtons env w))"
proof (cases "readButtonFile env w")
  case (Pair r wa)
  show ?thesis
  proof (cases r)
    case None
    then show ?thesis using Pair checkButtons_no_record[of env w wa] by (simp add: only_read_def)
  next
    case (Some b)
    show ?thesis
    proof (cases "button b = []")
      case True
      then show ?thesis using Pair Some checkButtons_no_name[of env w b wa] by (simp add: only_read_def)
    next
      case False
      then show ?thesis using Pair Some checkButtons_marker[of env w b wa] by simp
    qed
  qed
qed

lemmas example_defs = world0_def host0_def comp0_def layerA_def layerB_def layerC_def glow_def
  blur_def tint_def store0_def scalarProp_def colorProp_def keyedProp_def env0_def parse0_def
  parseB0_def btn_def pos_def POSITION_FILE_def BUTTON_FILE_def

lemmas read_defs = readButtonFile_def tryPathB_def readPositionFile_def tryPath_def trim_def
  braced_def is_space_def stripSlash_def Let_def

lemmas block_defs = topButtons_def bottomButtons_def keypadSelect_def keypadButtonIndex_def
  prevKeyframe_def toggleKeyframe_def nextKeyframe_def populateProperties_def
  updateKeypadDropdowns_def getLayerEffects_def

text \<open>
  C9. A button record whose marker is 0 or absent is never processed: the last
  accepted marker is 0 at the start and never decreases, and with a last marker of at
  least 0 the call on such a record returns after the two reads, with nothing changed
  but what the reads assign.
\<close>

theorem C9_zero_marker:
  "(readButtonFile env w = (Some b, wa) \<and> (timestamp b = None \<or> timestamp b = Some 0)
      \<and> 0 \<le> lastButtonTimestamp w
      \<longrightarrow> (\<exists>w'. checkButtons env w = Done w' \<and> only_read w w'))
   \<and> lastButtonTimestamp (initialState h candidates) = 0
   \<and> (0 \<le> lastButtonTimestamp w \<longrightarrow> 0 \<le> lastButtonTimestamp (state_of (checkButtons env w)))"
proof (intro conjI impI)
  assume h: "readButtonFile env w = (Some b, wa) \<and> (timestamp b = None \<or> timestamp b = Some 0)
      \<and> 0 \<le> lastButtonTimestamp w"
  then have "(case timestamp b of Some t \<Rightarrow> t | None \<Rightarrow> 0) \<le> lastButtonTimestamp w" by auto
  with h show "\<exists>w'. checkButtons env w = Done w' \<and> only_read w w'"
    using checkButtons_ignored by blast
next
  show "lastButtonTimestamp (initialState h candidates) = 0" by (simp add: initialState_def)
next
  assume "0 \<le> lastButtonTimestamp w"
  then show "0 \<le> lastButtonTimestamp (state_of (checkButtons env w))"
    using checkButtons_marker_mono[of w env] by linarith
qed

theorem C9_zero_marker_witness:
  "(\<exists>w'. checkButtons envZero world0 = Done w' \<and> only_read world0 w')
   \<and> (\<exists>w'. checkButtons envAbsent (initialState host0 []) = Done w'
          \<and> only_read (initialState host0 []) w')
   \<and> 0 \<le> lastButtonTimestamp (state_of (checkButtons envTopRight world0))"
proof -
  have r0: "\<And>X. fst (readButtonFile envZero X) = Some (btn ''TOP RIGHT'' 0)"
    by (simp add: readButtonFile_def tryPathB_def envZero_def env0_def BUTTON_FILE_def
          trim_def braced_def is_space_def parseB0_def Let_def)
  have ra: "\<And>X. fst (readButtonFile envAbsent X)
                 = Some \<lparr>button = ''TOP RIGHT'', pressed = True, timestamp = None\<rparr>"
    by (simp add: readButtonFile_def tryPathB_def envAbsent_def env0_def BUTTON_FILE_def
          trim_def braced_def is_space_def parseB0_def Let_def)
  have r1: "readButtonFile envZero world0
            = (Some (btn ''TOP RIGHT'' 0), snd (readButtonFile envZero world0))"
    using r0[of world0] by (metis prod.collapse)
  have r2: "readButtonFile envAbsent (initialState host0 [])
            = (Some \<lparr>button = ''TOP RIGHT'', pressed = True, timestamp = None\<rparr>,
               snd (readButtonFile envAbsent (initialState host0 [])))"
    using ra[of "initialState host0 []"] by (metis prod.collapse)
  have z: "timestamp (btn ''TOP RIGHT'' 0) = Some 0" by (simp add: btn_def)
  have l0: "0 \<le> lastButtonTimestamp world0" by (simp add: world0_def)
  have a: "\<exists>w'. checkButtons envZero world0 = Done w' \<and> only_read world0 w'"
    using C9_zero_marker [of envZero world0 "btn ''TOP RIGHT'' 0"
        "snd (readButtonFile envZero world0)" host0 "[]"] r1 z l0 by blast
  have li: "lastButtonTimestamp (initialState host0 []) = 0"
    using C9_zero_marker [of envZero world0 "btn ''TOP RIGHT'' 0"
        "snd (readButtonFile envZero world0)" host0 "[]"] by blast
  have b: "\<exists>w'. checkButtons envAbsent (initialState host0 []) = Done w'
               \<and> only_read (initialState host0 []) w'"
    using C9_zero_marker [of envAbsent "initialState host0 []"
        "\<lparr>button = ''TOP RIGHT'', pressed = True, timestamp = None\<rparr>"
        "snd (readButtonFile envAbsent (initialState host0 []))" host0 "[]"] r2 li by auto
  have c: "0 \<le> lastButtonTimestamp (state_of (checkButtons envTopRight world0))"
    using C9_zero_marker [of envTopRight world0 "btn ''TOP RIGHT'' 0"
        "snd (readButtonFile envZero world0)" host0 "[]"] l0 by blast
  show ?thesis using a b c by blast
qed

section \<open>The reads when every candidate fails\<close>

text \<open>
  C3, as the claim states it, fails for the button state: \<^verbatim>\<open>readButtonFile\<close> keeps no
  last record, and returns \<^verbatim>\<open>null\<close> when no candidate gives one, also right after a
  read that gave a record.
\<close>

theorem C3_button_read_returns_null:
  "fst (readButtonFile envTopRight world0) = Some (btn ''TOP RIGHT'' 1000)
   \<and> fst (readButtonFile envBad (snd (readButtonFile envTopRight world0))) = None"
  by (simp add: readButtonFile_def tryPathB_def envTopRight_def envBad_def env0_def BUTTON_FILE_def
        POSITION_FILE_def trim_def braced_def is_space_def parseB0_def Let_def world0_def
        stripSlash_def)

text \<open>
  C3, amended: when the position read fails everywhere (every path it tries is missing
  or fails the guards), \<^verbatim>\<open>readPositionFile\<close> returns the last valid position, which
  stays the cached one; when the button read fails everywhere, \<^verbatim>\<open>readButtonFile\<close>
  returns \<^verbatim>\<open>null\<close>, and \<^verbatim>\<open>checkButtons\<close> takes that as no event: it returns after
  the two reads, with nothing changed but what the reads assign.
\<close>

theorem C3_read_on_total_failure:
  "((\<forall>p\<in>set (positionPaths w). position_fails env p) \<longrightarrow>
      fst (readPositionFile env w) = lastValidPosition w
      \<and> lastValidPosition (snd (readPositionFile env w)) = lastValidPosition w)
   \<and> ((\<forall>p\<in>set (buttonPaths w). button_fails env p) \<longrightarrow>
      fst (readButtonFile env w) = None
      \<and> (\<exists>w'. checkButtons env w = Done w' \<and> only_read w w'))"
proof (intro conjI impI)
  assume "\<forall>p\<in>set (positionPaths w). position_fails env p"
  then show "fst (readPositionFile env w) = lastValidPosition w"
    and "lastValidPosition (snd (readPositionFile env w)) = lastValidPosition w"
    using readPositionFile_fails by blast+
next
  assume b: "\<forall>p\<in>set (buttonPaths w). button_fails env p"
  then show n: "fst (readButtonFile env w) = None" by (rule readButtonFile_fails)
  then have "readButtonFile env w = (None, snd (readButtonFile env w))" by (metis prod.collapse)
  from checkButtons_no_record[OF this]
  show "\<exists>w'. checkButtons env w = Done w' \<and> only_read w w'" by blast
qed

theorem C3_read_on_total_failure_witness:
  "fst (readPositionFile envBad world0) = pos 10 0
   \<and> lastValidPosition (snd (readPositionFile envBad world0)) = pos 10 0
   \<and> fst (readButtonFile envBad world0) = None
   \<and> (\<exists>w'. checkButtons envBad world0 = Done w' \<and> only_read world0 w')"
proof -
  have p: "\<forall>p\<in>set (positionPaths world0). position_fails envBad p"
    by (simp add: positionPaths_def world0_def envBad_def env0_def position_fails_def
          POSITION_FILE_def BUTTON_FILE_def stripSlash_def position_record_ok_def trim_def
          braced_def is_space_def parse0_def finite_number_def)
  have b: "\<forall>p\<in>set (buttonPaths world0). button_fails envBad p"
    by (simp add: buttonPaths_def world0_def envBad_def env0_def button_fails_def
          POSITION_FILE_def BUTTON_FILE_def stripSlash_def button_record_ok_def trim_def
          braced_def is_space_def parseB0_def)
  have l: "lastValidPosition world0 = pos 10 0" by (simp add: world0_def)
  show ?thesis using C3_read_on_total_failure [of world0 envBad] p b l by simp
qed

section \<open>Navigation with the directional buttons\<close>

lemma populateProperties_app: "app (populateProperties env w) = app w"
  by (simp add: populateProperties_def Let_def split: option.splits)
lemma updateKeypadDropdowns_app: "app (updateKeypadDropdowns w) = app w"
  by (simp add: updateKeypadDropdowns_def)
lemma autoLoadMappings_app: "app (autoLoadMappings env w) = app w"
  by (simp add: autoLoadMappings_def Let_def split: option.splits)
lemma populateEffects_app: "app (populateEffects env w) = app w"
  by (simp add: populateEffects_def Let_def populateProperties_app updateKeypadDropdowns_app
        autoLoadMappings_app split: option.splits list.splits)

lemma checkButtons_accepted:
  assumes "accepted env w name" and "name \<noteq> []"
  shows "\<exists>w3. marker_only w w3 \<and> lastButtonTimestamp w < lastButtonTimestamp w3 \<and>
          checkButtons env w = andThen (topButtons env name w3)
            (\<lambda>w4. Done (nextKeyframe name (toggleKeyframe env name (prevKeyframe name
                     (keypadSelect name (bottomButtons env name w4))))))"
proof -
  obtain r wa where p: "readButtonFile env w = (r, wa)" by (cases "readButtonFile env w")
  with assms(1) obtain b where b: "r = Some b" "button b = name" "pressed b"
     "lastButtonTimestamp w < (case timestamp b of Some t \<Rightarrow> t | None \<Rightarrow> 0)"
    by (auto simp: accepted_def split: option.splits)
  let ?ts = "case timestamp b of Some t \<Rightarrow> t | None \<Rightarrow> 0"
  let ?w2 = "snd (readPositionFile env wa)"
  let ?w3 = "?w2\<lparr>lastButtonTimestamp := ?ts\<rparr>"
  have a: "only_read w wa" using readButtonFile_only_read[of w env] p by simp
  have "only_read wa ?w2" by (rule readPositionFile_only_read)
  with a have c: "only_read w ?w2" by (rule only_read_trans)
  then have l: "lastButtonTimestamp ?w2 = lastButtonTimestamp w" by (simp add: only_read_def)
  have m: "marker_only w ?w3" using c by (simp add: marker_only_def only_read_def)
  have "checkButtons env w = andThen (topButtons env name ?w3)
            (\<lambda>w4. Done (nextKeyframe name (toggleKeyframe env name (prevKeyframe name
                     (keypadSelect name (bottomButtons env name w4))))))"
    using p b l assms(2) by (simp add: checkButtons_def Let_def)
  with m b(4) show ?thesis by (intro exI[of _ ?w3]) simp
qed

lemma marker_only_fields:
  "marker_only w w' \<Longrightarrow> app w' = app w \<and> effectDropdown w' = effectDropdown w
    \<and> currentEffects w' = currentEffects w \<and> propDropdown w' = propDropdown w
    \<and> currentProperties w' = currentProperties w \<and> lastDialValue w' = lastDialValue w"
  by (simp add: marker_only_def only_read_def)

lemma top_effectDropdown:
  "effectDropdown (updateKeypadDropdowns (populateProperties env w)) = effectDropdown w
   \<and> currentEffects (updateKeypadDropdowns (populateProperties env w)) = currentEffects w"
  by (simp add: updateKeypadDropdowns_def populateProperties_def Let_def split: option.splits)

lemma topRight_step:
  assumes "effectDropdown w = Some i" and "i < length (currentEffects w)"
  shows "\<exists>w'. topButtons env ''TOP RIGHT'' w = Done w'
          \<and> effectDropdown w' = Some ((i + 1) mod length (currentEffects w))
          \<and> currentEffects w' = currentEffects w \<and> app w' = app w"
proof (cases "Suc i = length (currentEffects w)")
  case True
  then show ?thesis using assms
    by (cases "i = 0")
       (auto simp: topButtons_def Let_def top_effectDropdown populateProperties_app updateKeypadDropdowns_app)
next
  case False
  with assms have "Suc i < length (currentEffects w)" by simp
  then show ?thesis using assms
    by (auto simp: topButtons_def Let_def top_effectDropdown populateProperties_app updateKeypadDropdowns_app nat_add_distrib)
qed

lemma prev_mod: "0 < i \<Longrightarrow> i < n \<Longrightarrow> (i + n - 1) mod n = i - (1::nat)"
proof -
  assume a: "0 < i" "i < n"
  then have "i + n - 1 = (i - 1) + n" by simp
  then have "(i + n - 1) mod n = (i - 1) mod n" by simp
  then show ?thesis using a by simp
qed

lemma topLeft_step:
  assumes "effectDropdown w = Some i" and "i < length (currentEffects w)"
  shows "\<exists>w'. topButtons env ''TOP LEFT'' w = Done w'
          \<and> effectDropdown w' = Some ((i + length (currentEffects w) - 1) mod length (currentEffects w))
          \<and> currentEffects w' = currentEffects w \<and> app w' = app w"
proof (cases "i = 0")
  case True
  show ?thesis
  proof (cases "length (currentEffects w) = 1")
    case True
    with \<open>i = 0\<close> assms show ?thesis by (simp add: topButtons_def Let_def)
  next
    case False
    from assms(2) have "0 < length (currentEffects w)" by auto
    with False have n: "1 < length (currentEffects w)" by linarith
    then have "nat (int (length (currentEffects w)) - 1) = length (currentEffects w) - 1" by simp
    then show ?thesis using \<open>i = 0\<close> assms n
      by (simp add: topButtons_def Let_def top_effectDropdown populateProperties_app updateKeypadDropdowns_app)
  qed
next
  case False
  then have m: "(i + length (currentEffects w) - 1) mod length (currentEffects w) = i - 1"
    using assms(2) prev_mod by simp
  from False have "nat (int i - 1) = i - 1" by simp
  moreover from assms(2) have "currentEffects w \<noteq> []" by auto
  ultimately show ?thesis using assms False m
    by (simp add: topButtons_def Let_def top_effectDropdown populateProperties_app updateKeypadDropdowns_app)
qed

lemma first_selected:
  "m \<le> k \<Longrightarrow> k < m + length xs \<Longrightarrow>
   \<exists>l others. filter (\<lambda>(i, l). selected l)
        (enumerate m (map (\<lambda>(i, l). l\<lparr>selected := (int i = int k)\<rparr>) (enumerate m xs)))
     = (k, l) # others"
proof (induction xs arbitrary: m)
  case Nil
  then show ?case by simp
next
  case (Cons x xs)
  show ?case
  proof (cases "m = k")
    case True
    then show ?thesis by simp
  next
    case False
    with Cons.prems have "Suc m \<le> k" "k < Suc m + length xs" by simp_all
    from Cons.IH[OF this] False show ?thesis by simp
  qed
qed

lemma selected_index_range:
  assumes "selectedLayers c = (i, l) # others"
  shows "1 \<le> i \<and> i \<le> length (layers c)"
proof -
  have "(i, l) \<in> set (selectedLayers c)" using assms by simp
  then have "(i, l) \<in> set (enumerate 1 (layers c))" by (auto simp: selectedLayers_def)
  then show ?thesis by (auto simp: in_set_enumerate_eq)
qed

lemma getCurrentLayerIndex_range:
  assumes "activeItem (app w) = Some c" and "getCurrentLayerIndex w = int i" 
  shows "1 \<le> i \<and> i \<le> length (layers c)"
  using assms selected_index_range[of c]
  by (auto simp: getCurrentLayerIndex_def split: list.splits)

lemma getCurrentLayerIndex_cases:
  "getCurrentLayerIndex w = - 1 \<or> (\<exists>i. getCurrentLayerIndex w = int i)"
  by (auto simp: getCurrentLayerIndex_def split: option.splits list.splits)

lemma selectLayerByIndex_index:
  assumes "activeItem (app w) = Some c" and "1 \<le> k" and "k \<le> length (layers c)"
  shows "getCurrentLayerIndex (selectLayerByIndex env (int k) w) = int k"
proof -
  let ?ls = "map (\<lambda>(i, l). l\<lparr>selected := (int i = int k)\<rparr>) (enumerate 1 (layers c))"
  have a: "app (selectLayerByIndex env (int k) w) = (app w)\<lparr>activeItem := Some (c\<lparr>layers := ?ls\<rparr>)\<rparr>"
    using assms by (simp add: selectLayerByIndex_def Let_def populateEffects_app)
  from assms have "1 \<le> k" "k < 1 + length (layers c)" by simp_all
  from first_selected[OF this] obtain l others where
    "filter (\<lambda>(i, l). selected l) (enumerate 1 ?ls) = (k, l) # others" by blast
  then show ?thesis using a by (simp add: getCurrentLayerIndex_def selectedLayers_def)
qed

lemma selectLayerByIndex_layers:
  assumes "activeItem (app w) = Some c"
  shows "\<exists>c'. activeItem (app (selectLayerByIndex env k w)) = Some c' \<and> length (layers c') = length (layers c)"
  using assms by (simp add: selectLayerByIndex_def Let_def populateEffects_app)

lemma selectLayerByIndex_int:
  assumes "activeItem (app w) = Some c" and "1 \<le> k" and "k \<le> int (length (layers c))"
  shows "getCurrentLayerIndex (selectLayerByIndex env k w) = k"
proof -
  from assms have "1 \<le> nat k" "nat k \<le> length (layers c)" by linarith+
  from selectLayerByIndex_index[OF assms(1) this, of env] assms(2) show ?thesis by simp
qed

lemma bottomButtons_unfold:
  assumes "activeItem (app w) = Some c" and "getCurrentLayerIndex w = cur" and "0 \<le> cur"
  shows "bottomButtons env ''BOTTOM RIGHT'' w =
           (if (if cur + 1 > int (length (layers c)) then 1 else cur + 1) \<noteq> cur
            then selectLayerByIndex env (if cur + 1 > int (length (layers c)) then 1 else cur + 1) w
            else w)"
    and "bottomButtons env ''BOTTOM LEFT'' w =
           (if (if cur - 1 < 1 then int (length (layers c)) else cur - 1) \<noteq> cur
            then selectLayerByIndex env (if cur - 1 < 1 then int (length (layers c)) else cur - 1) w
            else w)"
  using assms by (simp_all add: bottomButtons_def Let_def)

lemma bottomRight_step:
  assumes "activeItem (app w) = Some c" and "getCurrentLayerIndex w = int i"
  shows "getCurrentLayerIndex (bottomButtons env ''BOTTOM RIGHT'' w) = int (i mod length (layers c)) + 1"
proof -
  from getCurrentLayerIndex_range[OF assms] have r: "1 \<le> i" "i \<le> length (layers c)" by simp_all
  have u: "bottomButtons env ''BOTTOM RIGHT'' w =
           (if (if int i + 1 > int (length (layers c)) then 1 else int i + 1) \<noteq> int i
            then selectLayerByIndex env (if int i + 1 > int (length (layers c)) then 1 else int i + 1) w
            else w)"
    by (rule bottomButtons_unfold(1)[OF assms]) simp
  show ?thesis
  proof (cases "i = length (layers c)")
    case True
    then have m: "i mod length (layers c) = 0" by simp
    show ?thesis
    proof (cases "i = 1")
      case True
      with \<open>i = length (layers c)\<close> have "bottomButtons env ''BOTTOM RIGHT'' w = w"
        by (subst u) simp
      then show ?thesis using assms(2) True m by simp
    next
      case False
      with \<open>i = length (layers c)\<close> have "bottomButtons env ''BOTTOM RIGHT'' w = selectLayerByIndex env 1 w"
        by (subst u) simp
      moreover have "getCurrentLayerIndex (selectLayerByIndex env 1 w) = 1"
        by (rule selectLayerByIndex_int[OF assms(1)]) (use r in simp_all)
      ultimately show ?thesis using m by simp
    qed
  next
    case False
    with r have lt: "i < length (layers c)" by simp
    then have m: "i mod length (layers c) = i" by simp
    from lt have "bottomButtons env ''BOTTOM RIGHT'' w = selectLayerByIndex env (int i + 1) w"
      by (subst u) simp
    moreover have "getCurrentLayerIndex (selectLayerByIndex env (int i + 1) w) = int i + 1"
      by (rule selectLayerByIndex_int[OF assms(1)]) (use lt in simp_all)
    ultimately show ?thesis using m by simp
  qed
qed

lemma bottomLeft_step:
  assumes "activeItem (app w) = Some c" and "getCurrentLayerIndex w = int i"
  shows "getCurrentLayerIndex (bottomButtons env ''BOTTOM LEFT'' w)
         = int ((i + length (layers c) - 2) mod length (layers c)) + 1"
proof -
  from getCurrentLayerIndex_range[OF assms] have r: "1 \<le> i" "i \<le> length (layers c)" by simp_all
  have u: "bottomButtons env ''BOTTOM LEFT'' w =
           (if (if int i - 1 < 1 then int (length (layers c)) else int i - 1) \<noteq> int i
            then selectLayerByIndex env (if int i - 1 < 1 then int (length (layers c)) else int i - 1) w
            else w)"
    by (rule bottomButtons_unfold(2)[OF assms]) simp
  show ?thesis
  proof (cases "i = 1")
    case True
    from r have "0 < length (layers c)" by linarith
    then have "(length (layers c) - 1) mod length (layers c) = length (layers c) - 1" by simp
    with True have m: "(i + length (layers c) - 2) mod length (layers c) = length (layers c) - 1"
      by simp
    have m2: "int (length (layers c) - 1) + 1 = int (length (layers c))" using r by linarith
    show ?thesis
    proof (cases "length (layers c) = 1")
      case True
      with \<open>i = 1\<close> have "bottomButtons env ''BOTTOM LEFT'' w = w"
        by (subst u) simp
      then show ?thesis using assms(2) \<open>i = 1\<close> True by simp
    next
      case False
      with \<open>i = 1\<close> have "bottomButtons env ''BOTTOM LEFT'' w
          = selectLayerByIndex env (int (length (layers c))) w"
        by (subst u) simp
      moreover have "getCurrentLayerIndex (selectLayerByIndex env (int (length (layers c))) w)
          = int (length (layers c))"
        by (rule selectLayerByIndex_int[OF assms(1)]) (use r in linarith)+
      ultimately show ?thesis using m m2 by simp
    qed
  next
    case False
    with r have g: "2 \<le> i" by simp
    then have e: "i + length (layers c) - 2 = (i - 2) + length (layers c)" by simp
    have "(i - 2) mod length (layers c) = i - 2" using r g by simp
    then have m: "(i + length (layers c) - 2) mod length (layers c) = i - 2"
      by (simp add: e)
    have m2: "int (i - 2) + 1 = int i - 1" using g by linarith
    from g have "bottomButtons env ''BOTTOM LEFT'' w = selectLayerByIndex env (int i - 1) w"
      by (subst u) simp
    moreover have "getCurrentLayerIndex (selectLayerByIndex env (int i - 1) w) = int i - 1"
      by (rule selectLayerByIndex_int[OF assms(1)]) (use g r in linarith)+
    ultimately show ?thesis using m m2 by simp
  qed
qed

lemma bottom_noop:
  assumes "activeItem (app w) = Some c" and "length (layers c) \<le> 1"
    and "name = ''BOTTOM RIGHT'' \<or> name = ''BOTTOM LEFT''"
  shows "bottomButtons env name w = w"
proof -
  consider (none) "getCurrentLayerIndex w = - 1" | (some) i where "getCurrentLayerIndex w = int i"
    using getCurrentLayerIndex_cases by blast
  then show ?thesis
  proof cases
    case none
    then show ?thesis using assms
      by (auto simp: bottomButtons_def Let_def selectLayerByIndex_def)
  next
    case (some i)
    from getCurrentLayerIndex_range[OF assms(1) some] assms(2) have "i = 1" "length (layers c) = 1" by simp_all
    then show ?thesis using assms some
      by (auto simp: bottomButtons_def Let_def)
  qed
qed

lemma top_noop:
  assumes "currentEffects w = [] \<or> (length (currentEffects w) = 1 \<and> (effectDropdown w = None \<or> effectDropdown w = Some 0))"
    and "name = ''TOP RIGHT'' \<or> name = ''TOP LEFT''"
  shows "topButtons env name w = Done w"
  using assms by (auto simp: topButtons_def Let_def split: option.splits)

lemma prevKeyframe_other: "name \<noteq> ''7'' \<Longrightarrow> prevKeyframe name w = w"
  by (simp add: prevKeyframe_def)
lemma toggleKeyframe_other: "name \<noteq> ''8'' \<Longrightarrow> toggleKeyframe env name w = w"
  by (simp add: toggleKeyframe_def)
lemma nextKeyframe_other: "name \<noteq> ''9'' \<Longrightarrow> nextKeyframe name w = w"
  by (simp add: nextKeyframe_def)
lemma keypadSelect_other: "keypadButtonIndex name = None \<Longrightarrow> keypadSelect name w = w"
  by (simp add: keypadSelect_def)
lemma bottomButtons_other:
  "name \<noteq> ''BOTTOM RIGHT'' \<Longrightarrow> name \<noteq> ''BOTTOM LEFT'' \<Longrightarrow> bottomButtons env name w = w"
  by (simp add: bottomButtons_def)
lemma topButtons_other:
  "name \<noteq> ''TOP RIGHT'' \<Longrightarrow> name \<noteq> ''TOP LEFT'' \<Longrightarrow> topButtons env name w = Done w"
  by (simp add: topButtons_def)

lemma other_blocks_top:
  assumes "name = ''TOP RIGHT'' \<or> name = ''TOP LEFT''"
  shows "nextKeyframe name (toggleKeyframe env name (prevKeyframe name
           (keypadSelect name (bottomButtons env name w)))) = w"
proof -
  from assms have "name \<noteq> ''7''" "name \<noteq> ''8''" "name \<noteq> ''9''" "name \<noteq> ''BOTTOM RIGHT''"
    "name \<noteq> ''BOTTOM LEFT''" "keypadButtonIndex name = None"
    by (auto simp: keypadButtonIndex_def)
  then show ?thesis
    by (simp add: prevKeyframe_other toggleKeyframe_other nextKeyframe_other keypadSelect_other
          bottomButtons_other)
qed

lemma other_blocks_bottom:
  assumes "name = ''BOTTOM RIGHT'' \<or> name = ''BOTTOM LEFT''"
  shows "topButtons env name w = Done w \<and> nextKeyframe name (toggleKeyframe env name (prevKeyframe name
           (keypadSelect name v))) = v"
proof -
  from assms have "name \<noteq> ''7''" "name \<noteq> ''8''" "name \<noteq> ''9''" "name \<noteq> ''TOP RIGHT''"
    "name \<noteq> ''TOP LEFT''" "keypadButtonIndex name = None"
    by (auto simp: keypadButtonIndex_def)
  then show ?thesis
    by (simp add: prevKeyframe_other toggleKeyframe_other nextKeyframe_other keypadSelect_other
          topButtons_other)
qed

lemma getCurrentLayerIndex_app: "app a = app b \<Longrightarrow> getCurrentLayerIndex a = getCurrentLayerIndex b"
  by (simp add: getCurrentLayerIndex_def)

lemma bottomButtons_layers:
  assumes "activeItem (app w) = Some c"
  shows "\<exists>c'. activeItem (app (bottomButtons env name w)) = Some c'
              \<and> length (layers c') = length (layers c)"
  using assms selectLayerByIndex_layers[OF assms]
  by (simp add: bottomButtons_def Let_def)

lemma checkButtons_top:
  assumes "accepted env w name" and "name = ''TOP RIGHT'' \<or> name = ''TOP LEFT''"
  shows "\<exists>w3. marker_only w w3 \<and> checkButtons env w = topButtons env name w3"
proof -
  from assms(2) have "name \<noteq> []" by auto
  from checkButtons_accepted[OF assms(1) this] obtain w3 where
    m: "marker_only w w3" and
    c: "checkButtons env w = andThen (topButtons env name w3)
            (\<lambda>w4. Done (nextKeyframe name (toggleKeyframe env name (prevKeyframe name
                     (keypadSelect name (bottomButtons env name w4))))))"
    by blast
  have "checkButtons env w = topButtons env name w3"
    by (cases "topButtons env name w3") (simp_all add: c other_blocks_top[OF assms(2)])
  with m show ?thesis by blast
qed

lemma checkButtons_bottom:
  assumes "accepted env w name" and "name = ''BOTTOM RIGHT'' \<or> name = ''BOTTOM LEFT''"
  shows "\<exists>w3. marker_only w w3 \<and> checkButtons env w = Done (bottomButtons env name w3)"
proof -
  from assms(2) have "name \<noteq> []" by auto
  from checkButtons_accepted[OF assms(1) this] obtain w3 where
    m: "marker_only w w3" and
    c: "checkButtons env w = andThen (topButtons env name w3)
            (\<lambda>w4. Done (nextKeyframe name (toggleKeyframe env name (prevKeyframe name
                     (keypadSelect name (bottomButtons env name w4))))))"
    by blast
  have "checkButtons env w = Done (bottomButtons env name w3)"
    using other_blocks_bottom[OF assms(2), of env] by (simp add: c)
  with m show ?thesis by blast
qed

lemma nav_top_right:
  assumes "accepted env w ''TOP RIGHT''" and "effectDropdown w = Some i"
    and "i < length (currentEffects w)"
  shows "effectDropdown (state_of (checkButtons env w)) = Some ((i + 1) mod length (currentEffects w))
         \<and> currentEffects (state_of (checkButtons env w)) = currentEffects w"
proof -
  from checkButtons_top[OF assms(1)] obtain w3 where
    m: "marker_only w w3" and c: "checkButtons env w = topButtons env ''TOP RIGHT'' w3" by blast
  from marker_only_fields[OF m] assms have "effectDropdown w3 = Some i" "i < length (currentEffects w3)"
    and e: "currentEffects w3 = currentEffects w" by simp_all
  from topRight_step[OF this(1,2), of env] e c show ?thesis by auto
qed

lemma nav_top_left:
  assumes "accepted env w ''TOP LEFT''" and "effectDropdown w = Some i"
    and "i < length (currentEffects w)"
  shows "effectDropdown (state_of (checkButtons env w))
           = Some ((i + length (currentEffects w) - 1) mod length (currentEffects w))
         \<and> currentEffects (state_of (checkButtons env w)) = currentEffects w"
proof -
  from checkButtons_top[OF assms(1)] obtain w3 where
    m: "marker_only w w3" and c: "checkButtons env w = topButtons env ''TOP LEFT'' w3" by blast
  from marker_only_fields[OF m] assms have "effectDropdown w3 = Some i" "i < length (currentEffects w3)"
    and e: "currentEffects w3 = currentEffects w" by simp_all
  from topLeft_step[OF this(1,2), of env] e c show ?thesis by auto
qed

lemma nav_bottom:
  assumes "accepted env w name" and "name = ''BOTTOM RIGHT'' \<or> name = ''BOTTOM LEFT''"
    and "activeItem (app w) = Some c"
  shows "\<exists>w3. app w3 = app w \<and> state_of (checkButtons env w) = bottomButtons env name w3
          \<and> (\<exists>c'. activeItem (app (state_of (checkButtons env w))) = Some c'
                \<and> length (layers c') = length (layers c))"
proof -
  from checkButtons_bottom[OF assms(1,2)] obtain w3 where
    m: "marker_only w w3" and c: "checkButtons env w = Done (bottomButtons env name w3)" by blast
  from marker_only_fields[OF m] have a: "app w3 = app w" by simp
  with assms(3) have "activeItem (app w3) = Some c" by simp
  from bottomButtons_layers[OF this, of env name] a c show ?thesis by auto
qed

lemma nav_top_noop:
  assumes "accepted env w ''TOP RIGHT'' \<or> accepted env w ''TOP LEFT''"
    and "currentEffects w = [] \<or> (length (currentEffects w) = 1
           \<and> (effectDropdown w = None \<or> effectDropdown w = Some 0))"
  shows "\<exists>w'. checkButtons env w = Done w' \<and> marker_only w w'"
proof -
  from assms(1) obtain name where n: "accepted env w name" "name = ''TOP RIGHT'' \<or> name = ''TOP LEFT''"
    by blast
  from checkButtons_top[OF n] obtain w3 where
    m: "marker_only w w3" and c: "checkButtons env w = topButtons env name w3" by blast
  from marker_only_fields[OF m] assms(2)
  have "currentEffects w3 = [] \<or> (length (currentEffects w3) = 1
           \<and> (effectDropdown w3 = None \<or> effectDropdown w3 = Some 0))" by simp
  from top_noop[OF this n(2), of env] c m show ?thesis by auto
qed

lemma nav_bottom_noop:
  assumes "accepted env w ''BOTTOM RIGHT'' \<or> accepted env w ''BOTTOM LEFT''"
    and "activeItem (app w) = Some c" and "length (layers c) \<le> 1"
  shows "\<exists>w'. checkButtons env w = Done w' \<and> marker_only w w'"
proof -
  from assms(1) obtain name where
    n: "accepted env w name" "name = ''BOTTOM RIGHT'' \<or> name = ''BOTTOM LEFT''" by blast
  from checkButtons_bottom[OF n] obtain w3 where
    m: "marker_only w w3" and c: "checkButtons env w = Done (bottomButtons env name w3)" by blast
  from marker_only_fields[OF m] assms(2) have "activeItem (app w3) = Some c" by simp
  from bottom_noop[OF this assms(3) n(2), of env] c m show ?thesis by auto
qed

text \<open>
  C5. With a pressed directional button whose marker is accepted: TOP RIGHT moves the
  selected effect from index \<open>i\<close> to \<open>(i + 1) mod n\<close> and TOP LEFT to \<open>(i + n - 1) mod n\<close>,
  where \<open>n\<close> is the number of effects (so from \<open>n - 1\<close> "next" gives 0, from 0 "prev"
  gives \<open>n - 1\<close>, and the index stays below \<open>n\<close>); BOTTOM RIGHT and BOTTOM LEFT do the
  same with the layers of the composition, whose indices start at 1; the numbers of
  effects and of layers stay the same. With no or one effect, or no or one layer, the
  call changes nothing but the accepted marker and what the reads assign.
\<close>

theorem C5_navigation:
  "(accepted env w ''TOP RIGHT'' \<and> effectDropdown w = Some i \<and> i < length (currentEffects w) \<longrightarrow>
      effectDropdown (state_of (checkButtons env w)) = Some ((i + 1) mod length (currentEffects w))
      \<and> currentEffects (state_of (checkButtons env w)) = currentEffects w)
   \<and> (accepted env w ''TOP LEFT'' \<and> effectDropdown w = Some i \<and> i < length (currentEffects w) \<longrightarrow>
      effectDropdown (state_of (checkButtons env w))
        = Some ((i + length (currentEffects w) - 1) mod length (currentEffects w))
      \<and> currentEffects (state_of (checkButtons env w)) = currentEffects w)
   \<and> (accepted env w ''BOTTOM RIGHT'' \<and> activeItem (app w) = Some c
        \<and> getCurrentLayerIndex w = int j \<longrightarrow>
      getCurrentLayerIndex (state_of (checkButtons env w)) = int (j mod length (layers c)) + 1
      \<and> (\<exists>c'. activeItem (app (state_of (checkButtons env w))) = Some c'
             \<and> length (layers c') = length (layers c)))
   \<and> (accepted env w ''BOTTOM LEFT'' \<and> activeItem (app w) = Some c
        \<and> getCurrentLayerIndex w = int j \<longrightarrow>
      getCurrentLayerIndex (state_of (checkButtons env w))
        = int ((j + length (layers c) - 2) mod length (layers c)) + 1
      \<and> (\<exists>c'. activeItem (app (state_of (checkButtons env w))) = Some c'
             \<and> length (layers c') = length (layers c)))
   \<and> ((accepted env w ''TOP RIGHT'' \<or> accepted env w ''TOP LEFT'')
        \<and> (currentEffects w = [] \<or> (length (currentEffects w) = 1
              \<and> (effectDropdown w = None \<or> effectDropdown w = Some 0))) \<longrightarrow>
      (\<exists>w'. checkButtons env w = Done w' \<and> marker_only w w'))
   \<and> ((accepted env w ''BOTTOM RIGHT'' \<or> accepted env w ''BOTTOM LEFT'')
        \<and> activeItem (app w) = Some c \<and> length (layers c) \<le> 1 \<longrightarrow>
      (\<exists>w'. checkButtons env w = Done w' \<and> marker_only w w'))"
proof (intro conjI impI)
  assume "accepted env w ''TOP RIGHT'' \<and> effectDropdown w = Some i \<and> i < length (currentEffects w)"
  then show "effectDropdown (state_of (checkButtons env w)) = Some ((i + 1) mod length (currentEffects w))"
    and "currentEffects (state_of (checkButtons env w)) = currentEffects w"
    using nav_top_right by blast+
next
  assume "accepted env w ''TOP LEFT'' \<and> effectDropdown w = Some i \<and> i < length (currentEffects w)"
  then show "effectDropdown (state_of (checkButtons env w))
        = Some ((i + length (currentEffects w) - 1) mod length (currentEffects w))"
    and "currentEffects (state_of (checkButtons env w)) = currentEffects w"
    using nav_top_left by blast+
next
  assume h: "accepted env w ''BOTTOM RIGHT'' \<and> activeItem (app w) = Some c
        \<and> getCurrentLayerIndex w = int j"
  then obtain w3 where a: "app w3 = app w"
    and s: "state_of (checkButtons env w) = bottomButtons env ''BOTTOM RIGHT'' w3"
    and l: "\<exists>c'. activeItem (app (state_of (checkButtons env w))) = Some c'
                \<and> length (layers c') = length (layers c)"
    using nav_bottom[of env w "''BOTTOM RIGHT''" c] by blast
  from a h have "activeItem (app w3) = Some c" "getCurrentLayerIndex w3 = int j"
    using getCurrentLayerIndex_app[OF a] by simp_all
  from bottomRight_step[OF this, of env] s
  show "getCurrentLayerIndex (state_of (checkButtons env w)) = int (j mod length (layers c)) + 1"
    by simp
  from l show "\<exists>c'. activeItem (app (state_of (checkButtons env w))) = Some c'
                \<and> length (layers c') = length (layers c)" .
next
  assume h: "accepted env w ''BOTTOM LEFT'' \<and> activeItem (app w) = Some c
        \<and> getCurrentLayerIndex w = int j"
  then obtain w3 where a: "app w3 = app w"
    and s: "state_of (checkButtons env w) = bottomButtons env ''BOTTOM LEFT'' w3"
    and l: "\<exists>c'. activeItem (app (state_of (checkButtons env w))) = Some c'
                \<and> length (layers c') = length (layers c)"
    using nav_bottom[of env w "''BOTTOM LEFT''" c] by blast
  from a h have "activeItem (app w3) = Some c" "getCurrentLayerIndex w3 = int j"
    using getCurrentLayerIndex_app[OF a] by simp_all
  from bottomLeft_step[OF this, of env] s
  show "getCurrentLayerIndex (state_of (checkButtons env w))
        = int ((j + length (layers c) - 2) mod length (layers c)) + 1"
    by simp
  from l show "\<exists>c'. activeItem (app (state_of (checkButtons env w))) = Some c'
                \<and> length (layers c') = length (layers c)" .
next
  assume "(accepted env w ''TOP RIGHT'' \<or> accepted env w ''TOP LEFT'')
        \<and> (currentEffects w = [] \<or> (length (currentEffects w) = 1
              \<and> (effectDropdown w = None \<or> effectDropdown w = Some 0)))"
  then show "\<exists>w'. checkButtons env w = Done w' \<and> marker_only w w'"
    using nav_top_noop by blast
next
  assume "(accepted env w ''BOTTOM RIGHT'' \<or> accepted env w ''BOTTOM LEFT'')
        \<and> activeItem (app w) = Some c \<and> length (layers c) \<le> 1"
  then show "\<exists>w'. checkButtons env w = Done w' \<and> marker_only w w'"
    using nav_bottom_noop by blast
qed

lemmas env_defs = envTopRight_def envTopLeft_def envBottomRight_def envBottomLeft_def envZero_def
  envAbsent_def envBad_def
lemmas variant_defs = worldLast_def worldC_def compC_def worldOne_def compSolo_def worldSolo_def

theorem C5_navigation_witness:
  "effectDropdown (state_of (checkButtons envTopRight worldLast)) = Some 0
   \<and> effectDropdown (state_of (checkButtons envTopLeft world0)) = Some 2
   \<and> getCurrentLayerIndex (state_of (checkButtons envBottomRight worldC)) = 1
   \<and> getCurrentLayerIndex (state_of (checkButtons envBottomLeft world0)) = 3
   \<and> (\<exists>w'. checkButtons envTopRight worldOne = Done w' \<and> marker_only worldOne w')
   \<and> (\<exists>w'. checkButtons envBottomLeft worldSolo = Done w' \<and> marker_only worldSolo w')"
proof -
  have a1: "accepted envTopRight worldLast ''TOP RIGHT''"
    by (simp add: accepted_def env_defs variant_defs example_defs read_defs)
  have a2: "accepted envTopLeft world0 ''TOP LEFT''"
    by (simp add: accepted_def env_defs variant_defs example_defs read_defs)
  have a3: "accepted envBottomRight worldC ''BOTTOM RIGHT''"
    by (simp add: accepted_def env_defs variant_defs example_defs read_defs)
  have a4: "accepted envBottomLeft world0 ''BOTTOM LEFT''"
    by (simp add: accepted_def env_defs variant_defs example_defs read_defs)
  have a5: "accepted envTopRight worldOne ''TOP RIGHT''"
    by (simp add: accepted_def env_defs variant_defs example_defs read_defs)
  have a6: "accepted envBottomLeft worldSolo ''BOTTOM LEFT''"
    by (simp add: accepted_def env_defs variant_defs example_defs read_defs)
  have e1: "effectDropdown worldLast = Some 2 \<and> length (currentEffects worldLast) = 3"
    by (simp add: variant_defs example_defs getLayerEffects_def)
  have e2: "effectDropdown world0 = Some 0 \<and> length (currentEffects world0) = 3"
    by (simp add: example_defs getLayerEffects_def)
  have l3: "activeItem (app worldC) = Some compC \<and> getCurrentLayerIndex worldC = int 3
            \<and> length (layers compC) = 3"
    by (simp add: variant_defs example_defs getCurrentLayerIndex_def selectedLayers_def)
  have l4: "activeItem (app world0) = Some comp0 \<and> getCurrentLayerIndex world0 = int 1
            \<and> length (layers comp0) = 3"
    by (simp add: example_defs getCurrentLayerIndex_def selectedLayers_def)
  have e5: "length (currentEffects worldOne) = 1 \<and> effectDropdown worldOne = Some 0"
    by (simp add: variant_defs example_defs getLayerEffects_def)
  have l6: "activeItem (app worldSolo) = Some compSolo \<and> length (layers compSolo) \<le> 1"
    by (simp add: variant_defs example_defs)
  have "effectDropdown (state_of (checkButtons envTopRight worldLast)) = Some 0"
    using C5_navigation [of envTopRight worldLast 2 comp0 0] a1 e1 by simp
  moreover have "effectDropdown (state_of (checkButtons envTopLeft world0)) = Some 2"
    using C5_navigation [of envTopLeft world0 0 comp0 0] a2 e2 by simp
  moreover have "getCurrentLayerIndex (state_of (checkButtons envBottomRight worldC)) = 1"
    using C5_navigation [of envBottomRight worldC 0 compC 3] a3 l3 by simp
  moreover have "getCurrentLayerIndex (state_of (checkButtons envBottomLeft world0)) = 3"
    using C5_navigation [of envBottomLeft world0 0 comp0 1] a4 l4 by simp
  moreover have "\<exists>w'. checkButtons envTopRight worldOne = Done w' \<and> marker_only worldOne w'"
    using C5_navigation [of envTopRight worldOne 0 comp0 0] a5 e5 by blast
  moreover have "\<exists>w'. checkButtons envBottomLeft worldSolo = Done w' \<and> marker_only worldSolo w'"
    using C5_navigation [of envBottomLeft worldSolo 0 compSolo 0] a6 l6 by blast
  ultimately show ?thesis by blast
qed


section \<open>Two records with the same marker\<close>

text \<open>
  C4, as the claim states it, fails when the first of the two records names no button:
  \<^verbatim>\<open>checkButtons\<close> drops such a record before it looks at the marker (line 937), so
  the marker is not recorded, and a second record with the same marker 1000 that names
  TOP RIGHT is acted on: the selected effect moves from index 0 to index 1.
\<close>

theorem C4_first_record_without_name:
  "fst (readButtonFile envNoName world0)
     = Some \<lparr>button = [], pressed = True, timestamp = Some 1000\<rparr>
   \<and> fst (readButtonFile envTopRight (state_of (checkButtons envNoName world0)))
     = Some (btn ''TOP RIGHT'' 1000)
   \<and> effectDropdown (state_of (checkButtons envNoName world0)) = Some 0
   \<and> effectDropdown (state_of (checkButtons envTopRight (state_of (checkButtons envNoName world0))))
     = Some 1"
proof -
  let ?b = "\<lparr>button = [], pressed = True, timestamp = Some 1000\<rparr>"
  let ?v1 = "state_of (checkButtons envNoName world0)"
  have r0: "fst (readButtonFile envNoName world0) = Some ?b"
    by (simp add: readButtonFile_def tryPathB_def envNoName_def env0_def BUTTON_FILE_def
          trim_def braced_def is_space_def parseB0_def Let_def)
  then have "readButtonFile envNoName world0 = (Some ?b, snd (readButtonFile envNoName world0))"
    by (metis prod.collapse)
  from checkButtons_no_name[OF this] have o: "only_read world0 ?v1" by simp
  have r: "\<And>X. fst (readButtonFile envTopRight X) = Some (btn ''TOP RIGHT'' 1000)"
    by (simp add: readButtonFile_def tryPathB_def envTopRight_def env0_def BUTTON_FILE_def
          trim_def braced_def is_space_def parseB0_def Let_def)
  from o have f: "lastButtonTimestamp ?v1 = 0" "effectDropdown ?v1 = Some 0"
    "length (currentEffects ?v1) = 3"
    by (simp_all add: only_read_def world0_def getLayerEffects_def layerA_def)
  have a: "accepted envTopRight ?v1 ''TOP RIGHT''"
    using r[of ?v1] f(1) by (simp add: accepted_def btn_def)
  from nav_top_right[OF a f(2)] f(3)
  have "effectDropdown (state_of (checkButtons envTopRight ?v1)) = Some 1" by simp
  with r0 r[of ?v1] f(2) show ?thesis by simp
qed

text \<open>
  C4, amended. A button record is acted on only if its marker is strictly greater than
  the last accepted one: with a marker that is not greater, \<^verbatim>\<open>checkButtons\<close> returns
  after the two reads, and nothing but what the reads assign has changed. And of two
  records with the same marker, processed in order, of which the first names a button,
  the second is no event: whatever the call on the first did (returned or threw), the
  call on the second changes nothing but what the reads assign.
\<close>

theorem C4_duplicate:
  "(readButtonFile env w = (Some b, wa)
      \<and> (case timestamp b of Some t \<Rightarrow> t | None \<Rightarrow> 0) \<le> lastButtonTimestamp w
      \<longrightarrow> (\<exists>w'. checkButtons env w = Done w' \<and> only_read w w'))
   \<and> (readButtonFile env1 v = (Some b1, va) \<and> button b1 \<noteq> [] \<and> timestamp b1 = Some t
      \<and> readButtonFile env2 (state_of (checkButtons env1 v)) = (Some b2, vb) \<and> timestamp b2 = Some t
      \<longrightarrow> (\<exists>v'. checkButtons env2 (state_of (checkButtons env1 v)) = Done v'
                \<and> only_read (state_of (checkButtons env1 v)) v'))"
proof (intro conjI impI)
  assume "readButtonFile env w = (Some b, wa) \<and> (case timestamp b of Some t \<Rightarrow> t | None \<Rightarrow> 0) \<le> lastButtonTimestamp w"
  then show "\<exists>w'. checkButtons env w = Done w' \<and> only_read w w'"
    using checkButtons_ignored by blast
next
  assume h: "readButtonFile env1 v = (Some b1, va) \<and> button b1 \<noteq> [] \<and> timestamp b1 = Some t
      \<and> readButtonFile env2 (state_of (checkButtons env1 v)) = (Some b2, vb) \<and> timestamp b2 = Some t"
  let ?v1 = "state_of (checkButtons env1 v)"
  from h have "lastButtonTimestamp ?v1 = max (lastButtonTimestamp v) t"
    using checkButtons_marker[of env1 v b1 va] by simp
  then have "(case timestamp b2 of Some t \<Rightarrow> t | None \<Rightarrow> 0) \<le> lastButtonTimestamp ?v1"
    using h by simp
  with h show "\<exists>v'. checkButtons env2 ?v1 = Done v' \<and> only_read ?v1 v'"
    using checkButtons_ignored[of env2 ?v1 b2 vb] by blast
qed


theorem C4_duplicate_witness:
  "effectDropdown world0 = Some 0
   \<and> effectDropdown (state_of (checkButtons envTopRight world0)) = Some 1
   \<and> (\<exists>v'. checkButtons envTopRight (state_of (checkButtons envTopRight world0)) = Done v'
          \<and> only_read (state_of (checkButtons envTopRight world0)) v')"
proof -
  let ?v1 = "state_of (checkButtons envTopRight world0)"
  have r: "\<And>X. fst (readButtonFile envTopRight X) = Some (btn ''TOP RIGHT'' 1000)"
    by (simp add: readButtonFile_def tryPathB_def envTopRight_def env0_def BUTTON_FILE_def
          trim_def braced_def is_space_def parseB0_def Let_def)
  have r1: "readButtonFile envTopRight world0
            = (Some (btn ''TOP RIGHT'' 1000), snd (readButtonFile envTopRight world0))"
    using r[of world0] by (metis prod.collapse)
  have r2: "readButtonFile envTopRight ?v1
            = (Some (btn ''TOP RIGHT'' 1000), snd (readButtonFile envTopRight ?v1))"
    using r[of ?v1] by (metis prod.collapse)
  have n: "effectDropdown ?v1 = Some 1"
    by (simp add: checkButtons_def envTopRight_def example_defs read_defs block_defs)
  have b: "button (btn ''TOP RIGHT'' 1000) \<noteq> [] \<and> timestamp (btn ''TOP RIGHT'' 1000) = Some 1000"
    by (simp add: btn_def)
  have "\<exists>v'. checkButtons envTopRight ?v1 = Done v' \<and> only_read ?v1 v'"
    using C4_duplicate [of envTopRight ?v1 "btn ''TOP RIGHT'' 1000"
        "snd (readButtonFile envTopRight ?v1)" envTopRight world0 "btn ''TOP RIGHT'' 1000"
        "snd (readButtonFile envTopRight world0)" 1000 envTopRight "btn ''TOP RIGHT'' 1000"
        "snd (readButtonFile envTopRight ?v1)"] r1 r2 b
    by blast
  then show ?thesis using n by (simp add: world0_def)
qed


section \<open>Toggling a keyframe\<close>






















lemmas host_defs = selectedProp_def keyframeNear_def nearCount_def numKeys_def nearestKeyIndex_def
  keyTime_def removeKey_def setValueAtTime_def setValue_def setProp_def setTime_def propValue_def
  valueAt_def hasNumericValue_def









section \<open>The dial step\<close>

text \<open>What the selection of the target and the reads of the dial step leave unchanged.\<close>


lemma populateProperties_dial:
  "lastDialValue (populateProperties env w) = lastDialValue w
   \<and> lastSmallDialValue (populateProperties env w) = lastSmallDialValue w"
  by (simp add: populateProperties_def Let_def split: option.splits)
lemma updateKeypadDropdowns_dial:
  "lastDialValue (updateKeypadDropdowns w) = lastDialValue w
   \<and> lastSmallDialValue (updateKeypadDropdowns w) = lastSmallDialValue w"
  by (simp add: updateKeypadDropdowns_def)
lemma autoLoadMappings_dial:
  "lastDialValue (autoLoadMappings env w) = lastDialValue w
   \<and> lastSmallDialValue (autoLoadMappings env w) = lastSmallDialValue w"
  by (simp add: autoLoadMappings_def Let_def split: option.splits)
lemma populateEffects_dial:
  "lastDialValue (populateEffects env w) = lastDialValue w
   \<and> lastSmallDialValue (populateEffects env w) = lastSmallDialValue w"
  by (simp add: populateEffects_def Let_def populateProperties_dial updateKeypadDropdowns_dial
        autoLoadMappings_dial split: option.splits list.splits)
lemma populateEffects_lr_frame:
  "lastDialValue (populateEffects_lr env w) = lastDialValue w
   \<and> app (populateEffects_lr env w) = app w \<and> kept w (populateEffects_lr env w)"
proof -
  have "\<And>v. kept w v \<Longrightarrow> kept w (populateProperties env v)"
    using kept_trans populateProperties_kept by blast
  moreover have "\<And>l. kept w (w\<lparr>effectDropdown := None, propDropdown := None, currentEffects := [],
       currentProperties := [], currentEffects := getLayerEffects l, effectDropdown := Some 0\<rparr>)"
    by (simp add: kept_def)
  ultimately show ?thesis
    by (auto simp: populateEffects_lr_def Let_def populateProperties_dial populateProperties_app kept_def
          split: option.splits list.splits)
qed

lemma target_frame:
  "app (fst (target env w)) = app w \<and> kept w (fst (target env w))
   \<and> lastSmallDialValue (fst (target env w)) = lastSmallDialValue w
   \<and> (lastDialValue (fst (target env w)) = None \<or> lastDialValue (fst (target env w)) = lastDialValue w)"
proof -
  have k: "\<And>n. kept w ((populateEffects env (w\<lparr>lastLayerName := n\<rparr>))\<lparr>lastDialValue := None\<rparr>)"
  proof -
    fix n
    have "kept w (w\<lparr>lastLayerName := n\<rparr>)" by (simp add: kept_def)
    moreover have "kept (w\<lparr>lastLayerName := n\<rparr>) (populateEffects env (w\<lparr>lastLayerName := n\<rparr>))"
      by (rule populateEffects_kept)
    ultimately have "kept w (populateEffects env (w\<lparr>lastLayerName := n\<rparr>))" by (rule kept_trans)
    then show "kept w ((populateEffects env (w\<lparr>lastLayerName := n\<rparr>))\<lparr>lastDialValue := None\<rparr>)"
      by (simp add: kept_def)
  qed
  show ?thesis
    using k
    by (simp add: target_def Let_def populateEffects_app populateEffects_dial kept_refl
          split: option.splits list.splits prod.splits)
qed

lemma target_lr_frame:
  "app (fst (target_lr env w)) = app w \<and> kept w (fst (target_lr env w))
   \<and> (lastDialValue (fst (target_lr env w)) = None \<or> lastDialValue (fst (target_lr env w)) = lastDialValue w)"
proof -
  have k: "\<And>n. kept w ((populateEffects_lr env (w\<lparr>lastLayerName := n\<rparr>))\<lparr>lastDialValue := None\<rparr>)"
  proof -
    fix n
    have "kept w (w\<lparr>lastLayerName := n\<rparr>)" by (simp add: kept_def)
    moreover have "kept (w\<lparr>lastLayerName := n\<rparr>) (populateEffects_lr env (w\<lparr>lastLayerName := n\<rparr>))"
      using populateEffects_lr_frame by blast
    ultimately have "kept w (populateEffects_lr env (w\<lparr>lastLayerName := n\<rparr>))" by (rule kept_trans)
    then show "kept w ((populateEffects_lr env (w\<lparr>lastLayerName := n\<rparr>))\<lparr>lastDialValue := None\<rparr>)"
      by (simp add: kept_def)
  qed
  show ?thesis
    using k populateEffects_lr_frame
    by (simp add: target_lr_def Let_def kept_refl split: option.splits list.splits prod.splits)
qed

lemma dials_only_read: "only_read w (fst (dials env w))"
proof -
  obtain p w1 where r: "readPositionFile env w = (p, w1)" by (cases "readPositionFile env w")
  have a: "only_read w w1" using readPositionFile_only_read[of w env] r by simp
  have "only_read w1 (snd (readButtonFile env w1))" by (rule readButtonFile_only_read)
  with a have "only_read w (snd (readButtonFile env w1))" by (rule only_read_trans)
  then show ?thesis using r by (simp add: dials_def Let_def split: option.splits)
qed

lemma readPositionFile_lr_only_read: "only_read w (snd (readPositionFile_lr env w))"
  by (simp add: readPositionFile_lr_def Let_def only_read_def split: option.splits)

lemma updateProperty_unfold:
  assumes "isActive w" and "target env w = (w1, Some propInfo)"
    and "dials env w1 = (w2, Inr (Some (x, y)))"
  shows "updateProperty env w = applyDial env propInfo x y w2"
  using assms by (simp add: updateProperty_def)



lemma map_of_upsert: "map_of (upsert t v ks) t = Some v"
  by (induction t v ks rule: upsert.induct) auto

lemma upsert_not_Nil: "upsert t v ks \<noteq> []"
  by (induction t v ks rule: upsert.induct) auto

lemma writeValue_Inr:
  assumes "writeValue r v w = Inr w'"
  shows "(\<exists>p'. w' = setProp r p' w) \<and> propValue env (app w') r = v"
  using assms
  by (auto simp: writeValue_def Let_def setValueAtTime_def setValue_def setProp_def propValue_def
        valueAt_def numKeys_def map_of_upsert upsert_not_Nil split: option.splits if_splits)

lemma setProp_fields:
  "lastDialValue (setProp r p w) = lastDialValue w \<and> lastSmallDialValue (setProp r p w) = lastSmallDialValue w
   \<and> kept w (setProp r p w) \<and> activeItem (app (setProp r p w)) = activeItem (app w)
   \<and> (\<forall>q. q \<noteq> r \<longrightarrow> store (app (setProp r p w)) q = store (app w) q)"
  by (simp add: setProp_def kept_def)

lemma applyBig_fields:
  "lastDialValue (applyBig env propInfo d w) = lastDialValue w
   \<and> lastSmallDialValue (applyBig env propInfo d w) = lastSmallDialValue w
   \<and> kept w (applyBig env propInfo d w)
   \<and> activeItem (app (applyBig env propInfo d w)) = activeItem (app w)
   \<and> (\<forall>q. q \<noteq> pi_prop propInfo \<longrightarrow> store (app (applyBig env propInfo d w)) q = store (app w) q)"
proof -
  have a: "\<And>v s1 s2. let x = (case writeValue (pi_prop propInfo) v w of Inl e \<Rightarrow> w\<lparr>statusText := s1 e\<rparr>
                              | Inr w' \<Rightarrow> w'\<lparr>statusText := s2\<rparr>)
     in lastDialValue x = lastDialValue w \<and> lastSmallDialValue x = lastSmallDialValue w \<and> kept w x
        \<and> activeItem (app x) = activeItem (app w)
        \<and> (\<forall>q. q \<noteq> pi_prop propInfo \<longrightarrow> store (app x) q = store (app w) q)"
  proof -
    fix v s1 s2
    show "?thesis v s1 s2"
    proof (cases "writeValue (pi_prop propInfo) v w")
      case (Inl e) then show ?thesis by (simp add: kept_def)
    next
      case (Inr w')
      from writeValue_Inr[OF this] obtain p' where "w' = setProp (pi_prop propInfo) p' w" by blast
      with Inr show ?thesis using setProp_fields[of "pi_prop propInfo" p' w] by (simp add: kept_def)
    qed
  qed
  show ?thesis
    unfolding applyBig_def Let_def
    using a by (simp add: Let_def kept_def split: jsval.splits list.splits)
qed

lemma scrub_fields:
  "store (app (scrub d w)) = store (app w) \<and> kept w (scrub d w)
   \<and> lastDialValue (scrub d w) = lastDialValue w \<and> lastSmallDialValue (scrub d w) = lastSmallDialValue w
   \<and> statusText (scrub d w) = statusText w"
  by (simp add: scrub_def setTime_def Let_def kept_def split: option.splits)

lemma beforeBig_fields:
  "store (app (beforeBig x y w)) = store (app w) \<and> kept w (beforeBig x y w)
   \<and> lastDialValue (beforeBig x y w) = Some x \<and> lastSmallDialValue (beforeBig x y w) = Some y
   \<and> statusText (beforeBig x y w) = statusText w"
  by (simp add: beforeBig_def Let_def scrub_def setTime_def kept_def split: option.splits)

lemma beforeBig_still:
  "lastSmallDialValue w = Some s \<Longrightarrow> maxDelta < \<bar>y - s\<bar> \<Longrightarrow> app (beforeBig x y w) = app w"
  by (simp add: beforeBig_def Let_def)

lemma applyDial_big:
  "lastDialValue w = Some b \<Longrightarrow> x \<noteq> b \<Longrightarrow> \<bar>x - b\<bar> \<le> maxDelta \<Longrightarrow>
   applyDial env propInfo x y w = applyBig env propInfo (x - b) (beforeBig x y w)"
  by (simp add: applyDial_def beforeBig_def Let_def)

lemma applyDial_rejected:
  "lastDialValue w = Some b \<Longrightarrow> maxDelta < \<bar>x - b\<bar> \<Longrightarrow> applyDial env propInfo x y w = beforeBig x y w"
  by (auto simp: applyDial_def beforeBig_def Let_def maxDelta_def)

lemma applyDial_first:
  "lastDialValue w = None \<Longrightarrow> applyDial env propInfo x y w = beforeBig x y w"
  by (simp add: applyDial_def beforeBig_def Let_def)

lemma applyDial_cases:
  "applyDial env propInfo x y w = w \<and> lastDialValue w = Some x \<and> lastSmallDialValue w = Some y
   \<or> applyDial env propInfo x y w = beforeBig x y w
   \<or> (\<exists>d. applyDial env propInfo x y w = applyBig env propInfo d (beforeBig x y w))"
  by (auto simp: applyDial_def beforeBig_def Let_def)

lemma dials_fields:
  assumes "dials env w1 = (w2, res)"
  shows "only_read w1 w2"
  using dials_only_read[of w1 env] assms by simp

lemma target_fields:
  assumes "target env w = (w1, res)"
  shows "app w1 = app w \<and> kept w w1 \<and> lastSmallDialValue w1 = lastSmallDialValue w
         \<and> (lastDialValue w1 = None \<or> lastDialValue w1 = lastDialValue w)"
  using target_frame[of env w] assms by simp

lemma target_lr_fields:
  assumes "target_lr env w = (w1, res)"
  shows "app w1 = app w \<and> kept w w1
         \<and> (lastDialValue w1 = None \<or> lastDialValue w1 = lastDialValue w)"
  using target_lr_frame[of env w] assms by simp

lemma updateProperty_big:
  assumes "isActive w" and "target env w = (w1, Some propInfo)"
    and "dials env w1 = (w2, Inr (Some (x, y)))"
    and "lastDialValue w1 = Some b" and "x \<noteq> b" and "\<bar>x - b\<bar> \<le> maxDelta"
  shows "updateProperty env w = applyBig env propInfo (x - b) (beforeBig x y w2)"
proof -
  from dials_fields[OF assms(3)] assms(4) have "lastDialValue w2 = Some b" by (simp add: only_read_def)
  from applyDial_big[OF this assms(5,6)] updateProperty_unfold[OF assms(1-3)] show ?thesis by simp
qed

lemma updateProperty_sample:
  assumes "isActive w" and "target env w = (w1, Some propInfo)"
    and "dials env w1 = (w2, Inr (Some (x, y)))"
  shows "lastDialValue (updateProperty env w) = Some x \<and> lastSmallDialValue (updateProperty env w) = Some y"
  using applyDial_cases[of env propInfo x y w2] updateProperty_unfold[OF assms]
  by (auto simp: beforeBig_fields applyBig_fields)



lemma updateProperty_kept: "kept w (updateProperty env w)"
proof (cases "isActive w")
  case False then show ?thesis by (simp add: updateProperty_def kept_refl)
next
  case True
  obtain w1 t where t: "target env w = (w1, t)" by (cases "target env w")
  from target_fields[OF t] have k1: "kept w w1" by simp
  show ?thesis
  proof (cases t)
    case None with True t k1 show ?thesis by (simp add: updateProperty_def)
  next
    case (Some propInfo)
    obtain w2 res where d: "dials env w1 = (w2, res)" by (cases "dials env w1")
    from dials_fields[OF d] have "kept w1 w2" by (rule only_read_kept)
    with k1 have k2: "kept w w2" by (rule kept_trans)
    show ?thesis
    proof (cases res)
      case (Inl e)
      with True t Some d k2 show ?thesis by (simp add: updateProperty_def kept_def)
    next
      case (Inr opt)
      show ?thesis
      proof (cases opt)
        case None with Inr True t Some d k2 show ?thesis by (simp add: updateProperty_def)
      next
        case (Some xy)
        obtain x y where xy: "xy = (x, y)" by (cases xy)
        with Some Inr d have d': "dials env w1 = (w2, Inr (Some (x, y)))" by simp
        from t \<open>t = Some propInfo\<close> have t': "target env w = (w1, Some propInfo)" by simp
        have "kept w2 (applyDial env propInfo x y w2)"
          using applyDial_cases[of env propInfo x y w2] beforeBig_fields[of x y w2]
            applyBig_fields[of env propInfo _ "beforeBig x y w2"]
          by (auto simp: kept_def)
        with k2 have "kept w (applyDial env propInfo x y w2)" by (rule kept_trans)
        with updateProperty_unfold[OF True t' d'] show ?thesis by simp
      qed
    qed
  qed
qed

lemma beforeBig_same: "lastSmallDialValue w = Some y \<Longrightarrow> app (beforeBig x y w) = app w"
  by (simp add: beforeBig_def Let_def)

text \<open>The big dial on a number and on a colour.\<close>

lemma applyBig_scalar:
  assumes "propValue env (app v) (pi_prop propInfo) = JNum old"
  shows "(case writeValue (pi_prop propInfo) (JNum (old + d * bigSensitivity v)) v of
            Inr v' \<Rightarrow> app (applyBig env propInfo d v) = app v'
                      \<and> propValue env (app (applyBig env propInfo d v)) (pi_prop propInfo)
                          = JNum (old + d * bigSensitivity v)
          | Inl e \<Rightarrow> app (applyBig env propInfo d v) = app v)"
proof (cases "writeValue (pi_prop propInfo) (JNum (old + d * bigSensitivity v)) v")
  case (Inl e)
  then show ?thesis using assms by (simp add: applyBig_def Let_def)
next
  case (Inr v')
  from writeValue_Inr[OF this, of env] Inr show ?thesis using assms
    by (simp add: applyBig_def Let_def)
qed

lemma applyBig_color:
  assumes "propValue env (app v) (pi_prop propInfo) = JArr (JNum a # rest)"
    and "pi_valueType propInfo = COLOR"
  shows "(case writeValue (pi_prop propInfo)
                 (JArr (JNum (max 0 (min 1 (a + d * bigSensitivity v * 0.01))) # rest)) v of
            Inr v' \<Rightarrow> app (applyBig env propInfo d v) = app v'
                      \<and> propValue env (app (applyBig env propInfo d v)) (pi_prop propInfo)
                          = JArr (JNum (max 0 (min 1 (a + d * bigSensitivity v * 0.01))) # rest)
          | Inl e \<Rightarrow> app (applyBig env propInfo d v) = app v)"
proof (cases "writeValue (pi_prop propInfo)
                 (JArr (JNum (max 0 (min 1 (a + d * bigSensitivity v * 0.01))) # rest)) v")
  case (Inl e)
  then show ?thesis using assms by (simp add: applyBig_def Let_def)
next
  case (Inr v')
  from writeValue_Inr[OF this, of env] Inr show ?thesis using assms
    by (simp add: applyBig_def Let_def)
qed

text \<open>The first receiver script.\<close>

lemma updateProperty_lr_unfold:
  assumes "isActive w" and "target_lr env w = (w1, Some propInfo)"
    and "readPositionFile_lr env w1 = (p, w2)" and "finite_number (field ''x'' p) = Some x"
  shows "updateProperty_lr env w =
           (if Some x = lastDialValue w2 then w2
            else if \<bar>case lastDialValue w2 of Some l \<Rightarrow> x - l | None \<Rightarrow> 0\<bar> > maxDelta_lr
                 then w2\<lparr>lastDialValue := Some x\<rparr>
                 else applyBig_lr env propInfo (case lastDialValue w2 of Some l \<Rightarrow> x - l | None \<Rightarrow> 0)
                        (w2\<lparr>lastDialValue := Some x\<rparr>))"
proof -
  from assms(4) have "p \<noteq> JNull \<and> p \<noteq> JUndefined" by (auto simp: finite_number_def)
  with assms show ?thesis by (simp add: updateProperty_lr_def Let_def)
qed

lemma readPositionFile_lr_fields:
  assumes "readPositionFile_lr env w1 = (p, w2)"
  shows "only_read w1 w2"
  using readPositionFile_lr_only_read[of w1 env] assms by simp

lemma applyBig_lr_fields:
  "lastDialValue (applyBig_lr env propInfo d w) = lastDialValue w
   \<and> kept w (applyBig_lr env propInfo d w)
   \<and> activeItem (app (applyBig_lr env propInfo d w)) = activeItem (app w)
   \<and> (\<forall>q. q \<noteq> pi_prop propInfo \<longrightarrow> store (app (applyBig_lr env propInfo d w)) q = store (app w) q)"
  by (simp add: applyBig_lr_def Let_def kept_def setProp_def split: jsval.splits list.splits sum.splits)

lemma applyBig_lr_zero: "app (applyBig_lr env propInfo 0 w) = app w"
  by (simp add: applyBig_lr_def)

lemma setValue_read:
  "setValue (store h r) v = Inr p' \<Longrightarrow> propValue env (h\<lparr>store := (store h)(r := p')\<rparr>) r = v"
  by (auto simp: setValue_def propValue_def valueAt_def split: if_splits)

lemma applyBig_lr_scalar:
  assumes "propValue env (app v) (pi_prop propInfo) = JNum old" and "d \<noteq> 0"
  shows "(case setValue (store (app v) (pi_prop propInfo)) (JNum (old + d * bigSensitivity v)) of
            Inr p' \<Rightarrow> app (applyBig_lr env propInfo d v)
                        = (app v)\<lparr>store := (store (app v))(pi_prop propInfo := p')\<rparr>
                      \<and> propValue env (app (applyBig_lr env propInfo d v)) (pi_prop propInfo)
                          = JNum (old + d * bigSensitivity v)
          | Inl e \<Rightarrow> app (applyBig_lr env propInfo d v) = app v)"
proof (cases "setValue (store (app v) (pi_prop propInfo)) (JNum (old + d * bigSensitivity v))")
  case (Inl e)
  then show ?thesis using assms by (simp add: applyBig_lr_def Let_def)
next
  case (Inr p')
  from setValue_read[OF this, of env] Inr show ?thesis using assms
    by (simp add: applyBig_lr_def Let_def setProp_def)
qed

lemma applyBig_lr_color:
  assumes "propValue env (app v) (pi_prop propInfo) = JArr (JNum a # rest)"
    and "pi_valueType propInfo = COLOR" and "d \<noteq> 0"
  shows "(case setValue (store (app v) (pi_prop propInfo))
                 (JArr (JNum (max 0 (min 1 (a + d * bigSensitivity v * 0.01))) # rest)) of
            Inr p' \<Rightarrow> app (applyBig_lr env propInfo d v)
                        = (app v)\<lparr>store := (store (app v))(pi_prop propInfo := p')\<rparr>
                      \<and> propValue env (app (applyBig_lr env propInfo d v)) (pi_prop propInfo)
                          = JArr (JNum (max 0 (min 1 (a + d * bigSensitivity v * 0.01))) # rest)
          | Inl e \<Rightarrow> app (applyBig_lr env propInfo d v) = app v)"
proof (cases "setValue (store (app v) (pi_prop propInfo))
                 (JArr (JNum (max 0 (min 1 (a + d * bigSensitivity v * 0.01))) # rest))")
  case (Inl e)
  then show ?thesis using assms by (simp add: applyBig_lr_def Let_def)
next
  case (Inr p')
  from setValue_read[OF this, of env] Inr show ?thesis using assms
    by (simp add: applyBig_lr_def Let_def setProp_def)
qed

lemma updateProperty_lr_big:
  assumes "isActive w" and "target_lr env w = (w1, Some propInfo)"
    and "readPositionFile_lr env w1 = (p, w2)" and "finite_number (field ''x'' p) = Some x"
    and "lastDialValue w1 = Some b" and "x \<noteq> b" and "\<bar>x - b\<bar> \<le> maxDelta_lr"
  shows "updateProperty_lr env w = applyBig_lr env propInfo (x - b) (w2\<lparr>lastDialValue := Some x\<rparr>)"
proof -
  from readPositionFile_lr_fields[OF assms(3)] assms(5) have "lastDialValue w2 = Some b"
    by (simp add: only_read_def)
  with updateProperty_lr_unfold[OF assms(1-4)] assms(6,7) show ?thesis by simp
qed

lemma updateProperty_lr_sample:
  assumes "isActive w" and "target_lr env w = (w1, Some propInfo)"
    and "readPositionFile_lr env w1 = (p, w2)" and "finite_number (field ''x'' p) = Some x"
  shows "lastDialValue (updateProperty_lr env w) = Some x"
  using updateProperty_lr_unfold[OF assms] by (simp add: applyBig_lr_fields)

lemma updateProperty_lr_kept: "kept w (updateProperty_lr env w)"
proof (cases "isActive w")
  case False then show ?thesis by (simp add: updateProperty_lr_def kept_refl)
next
  case True
  obtain w1 t where t: "target_lr env w = (w1, t)" by (cases "target_lr env w")
  from target_lr_fields[OF t] have k1: "kept w w1" by simp
  obtain p w2 where r: "readPositionFile_lr env w1 = (p, w2)" by (cases "readPositionFile_lr env w1")
  from readPositionFile_lr_fields[OF r] have "kept w1 w2" by (rule only_read_kept)
  with k1 have k2: "kept w w2" by (rule kept_trans)
  have k3: "\<And>propInfo d x. kept w (applyBig_lr env propInfo d (w2\<lparr>lastDialValue := Some x\<rparr>))"
  proof -
    fix propInfo d x
    have "kept w (w2\<lparr>lastDialValue := Some x\<rparr>)" using k2 by (simp add: kept_def)
    moreover have "kept (w2\<lparr>lastDialValue := Some x\<rparr>) (applyBig_lr env propInfo d (w2\<lparr>lastDialValue := Some x\<rparr>))"
      by (simp add: applyBig_lr_fields)
    ultimately show "kept w (applyBig_lr env propInfo d (w2\<lparr>lastDialValue := Some x\<rparr>))"
      by (rule kept_trans)
  qed
  from k2 have k4: "\<And>s. kept w (w2\<lparr>statusText := s\<rparr>)" "\<And>x. kept w (w2\<lparr>lastDialValue := Some x\<rparr>)"
    by (simp_all add: kept_def)
  show ?thesis
    using True t r k1 k2 k3 k4
    by (simp add: updateProperty_lr_def Let_def split: option.splits)
qed



text \<open>The example states and records in the dial step.\<close>

lemma world0_fields:
  "app world0 = host0" "isActive world0" "lastDialValue world0 = Some 10"
  "lastSmallDialValue world0 = Some 0" "lastLayerName world0 = ''Layer A''"
  "length (currentEffects world0) = 3" "length (currentProperties world0) = 3"
  "pi_prop (currentProperties world0 ! 0) = 0" "pi_prop (currentProperties world0 ! 1) = 1"
  "pi_valueType (currentProperties world0 ! 1) = COLOR"
  "effectDropdown world0 = Some 0" "propDropdown world0 = Some 0"
  "sensInput world0 = Some 0.1"
  by (simp_all add: example_defs host_defs getLayerEffects_def)

lemma read_primary:
  assumes "files env POSITION_FILE = Some c" and "c \<noteq> []" and "braced (trim c)"
    and "JSON_parse env (trim c) = Some (pos a b)"
  shows "fst (readPositionFile env w) = pos a b \<and> fst (readPositionFile_lr env w) = pos a b"
  using assms
  by (simp add: readPositionFile_def tryPath_def readPositionFile_lr_def Let_def pos_def js_or_def)

lemma dials_primary:
  assumes "files env POSITION_FILE = Some c" and "c \<noteq> []" and "braced (trim c)"
    and "JSON_parse env (trim c) = Some (pos a b)"
  shows "snd (dials env w) = Inr (Some (a, b))"
proof -
  obtain p w1 where r: "readPositionFile env w = (p, w1)" by (cases "readPositionFile env w")
  with read_primary[OF assms, of w] have "p = pos a b" by simp
  with r show ?thesis by (simp add: dials_def Let_def pos_def finite_number_def)
qed

lemma envPos_read:
  assumes "c \<noteq> []" and "braced (trim c)" and "parse0 (trim c) = Some (pos a b)"
  shows "dials (envPos c) w = (fst (dials (envPos c) w), Inr (Some (a, b)))
         \<and> readPositionFile_lr (envPos c) w = (pos a b, snd (readPositionFile_lr (envPos c) w))"
proof -
  have f: "files (envPos c) POSITION_FILE = Some c" "JSON_parse (envPos c) (trim c) = Some (pos a b)"
    using assms(3) by (simp_all add: envPos_def env0_def)
  from dials_primary[OF f(1) assms(1,2) f(2), of w] read_primary[OF f(1) assms(1,2) f(2), of w]
  show ?thesis by (metis prod.collapse)
qed

lemma sample_strings:
  "braced (trim ''{x:10,y:0}'') \<and> parse0 (trim ''{x:10,y:0}'') = Some (pos 10 0)"
  "braced (trim ''{x:15,y:0}'') \<and> parse0 (trim ''{x:15,y:0}'') = Some (pos 15 0)"
  "braced (trim ''{x:20,y:0}'') \<and> parse0 (trim ''{x:20,y:0}'') = Some (pos 20 0)"
  "braced (trim ''{x:500,y:0}'') \<and> parse0 (trim ''{x:500,y:0}'') = Some (pos 500 0)"
  "braced (trim ''{x:505,y:0}'') \<and> parse0 (trim ''{x:505,y:0}'') = Some (pos 505 0)"
  "braced (trim ''{x:10,y:300}'') \<and> parse0 (trim ''{x:10,y:300}'') = Some (pos 10 300)"
  by (simp_all add: trim_def braced_def is_space_def parse0_def)

lemma pos_x: "finite_number (field ''x'' (pos a b)) = Some a"
  by (simp add: pos_def finite_number_def)

lemma ex_target:
  assumes "app w = host0" and "lastLayerName w = ''Layer A''" and "effectDropdown w = Some 0"
    and "length (currentEffects w) = 3" and "propDropdown w = Some k"
    and "currentProperties w = currentProperties world0" and "k < 3"
  shows "target env w = (w, Some (currentProperties world0 ! k))
         \<and> target_lr env w = (w, Some (currentProperties world0 ! k))"
  using assms
  by (simp add: target_def target_lr_def host0_def comp0_def selectedLayers_def layerA_def layerB_def
        layerC_def world0_fields)

lemma beforeBig_eq:
  "lastSmallDialValue w = Some y \<Longrightarrow>
   beforeBig x y w = w\<lparr>lastDialValue := Some x, lastSmallDialValue := Some y\<rparr>"
  by (simp add: beforeBig_def Let_def)

lemma ex_write:
  assumes "app v = host0"
  shows "writeValue 0 val v = Inr (setProp 0 (scalarProp\<lparr>staticValue := val\<rparr>) v)
         \<and> writeValue 1 val v = Inr (setProp 1 (colorProp\<lparr>staticValue := val\<rparr>) v)
         \<and> setValue (store (app v) 0) val = Inr (scalarProp\<lparr>staticValue := val\<rparr>)
         \<and> setValue (store (app v) 1) val = Inr (colorProp\<lparr>staticValue := val\<rparr>)
         \<and> propValue env (app v) 0 = JNum 50
         \<and> propValue env (app v) 1 = JArr [JNum 0.95, JNum 0.5, JNum 0.25, JNum 1]"
  using assms
  by (simp add: writeValue_def setValue_def numKeys_def host0_def store0_def scalarProp_def
        colorProp_def propValue_def valueAt_def)

text \<open>
  C1. When the value of a dial differs from the last value of that dial by more than
  \<open>maxDelta\<close>, the call of \<^verbatim>\<open>updateProperty\<close> changes nothing through that dial: for the
  big dial no property of the host is changed, for the small dial the composition
  (and so its time) is the same. In the first receiver script, with its one dial and
  its threshold of 50, the host is the same after the call.
\<close>

theorem C1_rejected_sample_changes_nothing:
  "(target env w = (wt, Some propInfo) \<and> dials env wt = (wd, Inr (Some (x, y)))
      \<and> lastDialValue w = Some b \<and> maxDelta < \<bar>x - b\<bar>
      \<longrightarrow> store (app (updateProperty env w)) = store (app w))
   \<and> (target env w = (wt, Some propInfo) \<and> dials env wt = (wd, Inr (Some (x, y)))
      \<and> lastSmallDialValue w = Some s \<and> maxDelta < \<bar>y - s\<bar>
      \<longrightarrow> activeItem (app (updateProperty env w)) = activeItem (app w))
   \<and> (target_lr env w = (vt, Some propInfo') \<and> readPositionFile_lr env vt = (p, vd)
      \<and> finite_number (field ''x'' p) = Some z \<and> lastDialValue w = Some c \<and> maxDelta_lr < \<bar>z - c\<bar>
      \<longrightarrow> app (updateProperty_lr env w) = app w)"
proof (intro conjI impI)
  assume h: "target env w = (wt, Some propInfo) \<and> dials env wt = (wd, Inr (Some (x, y)))
      \<and> lastDialValue w = Some b \<and> maxDelta < \<bar>x - b\<bar>"
  show "store (app (updateProperty env w)) = store (app w)"
  proof (cases "isActive w")
    case False then show ?thesis by (simp add: updateProperty_def)
  next
    case True
    from h target_fields[of env w wt] have t: "app wt = app w"
      "lastDialValue wt = None \<or> lastDialValue wt = Some b" by auto
    from h dials_fields[of env wt wd] have d: "app wd = app wt" "lastDialValue wd = lastDialValue wt"
      by (simp_all add: only_read_def)
    from h True have u: "updateProperty env w = applyDial env propInfo x y wd"
      by (simp add: updateProperty_unfold)
    from t(2) d(2) have "applyDial env propInfo x y wd = beforeBig x y wd"
      using applyDial_first[of wd env propInfo x y] applyDial_rejected[of wd b x env propInfo y] h
      by auto
    with u t(1) d(1) show ?thesis by (simp add: beforeBig_fields)
  qed
next
  assume h: "target env w = (wt, Some propInfo) \<and> dials env wt = (wd, Inr (Some (x, y)))
      \<and> lastSmallDialValue w = Some s \<and> maxDelta < \<bar>y - s\<bar>"
  show "activeItem (app (updateProperty env w)) = activeItem (app w)"
  proof (cases "isActive w")
    case False then show ?thesis by (simp add: updateProperty_def)
  next
    case True
    from h target_fields[of env w wt] have t: "app wt = app w" "lastSmallDialValue wt = Some s"
      by auto
    from h dials_fields[of env wt wd] t have d: "app wd = app w" "lastSmallDialValue wd = Some s"
      by (simp_all add: only_read_def)
    from h True have u: "updateProperty env w = applyDial env propInfo x y wd"
      by (simp add: updateProperty_unfold)
    from h d(2) have b: "\<And>x. app (beforeBig x y wd) = app wd" by (simp add: beforeBig_still)
    from applyDial_cases[of env propInfo x y wd] u d(1) b show ?thesis
      by (auto simp: applyBig_fields)
  qed
next
  assume h: "target_lr env w = (vt, Some propInfo') \<and> readPositionFile_lr env vt = (p, vd)
      \<and> finite_number (field ''x'' p) = Some z \<and> lastDialValue w = Some c \<and> maxDelta_lr < \<bar>z - c\<bar>"
  show "app (updateProperty_lr env w) = app w"
  proof (cases "isActive w")
    case False then show ?thesis by (simp add: updateProperty_lr_def)
  next
    case True
    from h target_lr_fields[of env w vt] have t: "app vt = app w"
      "lastDialValue vt = None \<or> lastDialValue vt = Some c" by auto
    from h readPositionFile_lr_fields[of env vt p vd] t have d: "app vd = app w"
      "lastDialValue vd = lastDialValue vt" by (simp_all add: only_read_def)
    from h True updateProperty_lr_unfold[of w env vt propInfo' p vd z]
    have u: "updateProperty_lr env w =
           (if Some z = lastDialValue vd then vd
            else if \<bar>case lastDialValue vd of Some l \<Rightarrow> z - l | None \<Rightarrow> 0\<bar> > maxDelta_lr
                 then vd\<lparr>lastDialValue := Some z\<rparr>
                 else applyBig_lr env propInfo' (case lastDialValue vd of Some l \<Rightarrow> z - l | None \<Rightarrow> 0)
                        (vd\<lparr>lastDialValue := Some z\<rparr>))" by simp
    from t(2) show ?thesis
    proof
      assume "lastDialValue vt = None"
      with u d show ?thesis by (simp add: maxDelta_lr_def applyBig_lr_zero)
    next
      assume "lastDialValue vt = Some c"
      with u d h show ?thesis by auto
    qed
  qed
qed

theorem C1_rejected_sample_changes_nothing_witness:
  "lastDialValue world0 = Some 10 \<and> maxDelta < \<bar>500 - 10\<bar>
   \<and> store (app (updateProperty (envPos ''{x:500,y:0}'') world0)) = store0
   \<and> lastSmallDialValue world0 = Some 0 \<and> maxDelta < \<bar>300 - 0\<bar>
   \<and> activeItem (app (updateProperty (envPos ''{x:10,y:300}'') world0)) = Some comp0
   \<and> maxDelta_lr < \<bar>500 - 10\<bar>
   \<and> app (updateProperty_lr (envPos ''{x:500,y:0}'') world0) = host0"
proof -
  let ?e = "envPos ''{x:500,y:0}''" and ?f = "envPos ''{x:10,y:300}''"
  let ?pi = "currentProperties world0 ! 0"
  have t: "target ?e world0 = (world0, Some ?pi)" "target ?f world0 = (world0, Some ?pi)"
    "target_lr ?e world0 = (world0, Some ?pi)"
    by (simp_all add: ex_target world0_fields)
  have d: "dials ?e world0 = (fst (dials ?e world0), Inr (Some (500, 0)))"
    "dials ?f world0 = (fst (dials ?f world0), Inr (Some (10, 300)))"
    "readPositionFile_lr ?e world0 = (pos 500 0, snd (readPositionFile_lr ?e world0))"
    using envPos_read[of "''{x:500,y:0}''" 500 0 world0] envPos_read[of "''{x:10,y:300}''" 10 300 world0]
    by (simp_all add: sample_strings)
  have m: "maxDelta < \<bar>500 - 10\<bar>" "maxDelta < \<bar>300 - 0\<bar>" "maxDelta_lr < \<bar>500 - 10\<bar>"
    by (simp_all add: maxDelta_def maxDelta_lr_def)
  note c = C1_rejected_sample_changes_nothing[where env = ?e and w = world0 and wt = world0
      and propInfo = ?pi and wd = "fst (dials ?e world0)" and x = 500 and y = 0 and b = 10
      and vt = world0 and propInfo' = ?pi and p = "pos 500 0"
      and vd = "snd (readPositionFile_lr ?e world0)" and z = 500 and c = 10]
  note c' = C1_rejected_sample_changes_nothing[where env = ?f and w = world0 and wt = world0
      and propInfo = ?pi and wd = "fst (dials ?f world0)" and x = 10 and y = 300 and s = 0]
  from c t d m have "store (app (updateProperty ?e world0)) = store (app world0)"
    "app (updateProperty_lr ?e world0) = app world0"
    by (simp_all add: world0_fields pos_x)
  moreover from c' t d m have "activeItem (app (updateProperty ?f world0)) = activeItem (app world0)"
    by (simp add: world0_fields)
  ultimately show ?thesis using m by (simp add: world0_fields host0_def)
qed




lemma ex_step:
  assumes "app w = host0" and "lastLayerName w = ''Layer A''" and "effectDropdown w = Some 0"
    and "length (currentEffects w) = 3" and "propDropdown w = Some k" and "k < 3"
    and "currentProperties w = currentProperties world0" and "lastSmallDialValue w = Some 0"
    and "braced (trim c) \<and> parse0 (trim c) = Some (pos a 0)" and "c \<noteq> []"
  shows "target (envPos c) w = (w, Some (currentProperties world0 ! k))"
    and "dials (envPos c) w = (fst (dials (envPos c) w), Inr (Some (a, 0)))"
    and "only_read w (fst (dials (envPos c) w))"
    and "beforeBig a 0 (fst (dials (envPos c) w))
           = (fst (dials (envPos c) w))\<lparr>lastDialValue := Some a, lastSmallDialValue := Some 0\<rparr>"
    and "target_lr (envPos c) w = (w, Some (currentProperties world0 ! k))"
    and "readPositionFile_lr (envPos c) w = (pos a 0, snd (readPositionFile_lr (envPos c) w))"
    and "only_read w (snd (readPositionFile_lr (envPos c) w))"
proof -
  show "target (envPos c) w = (w, Some (currentProperties world0 ! k))"
    "target_lr (envPos c) w = (w, Some (currentProperties world0 ! k))"
    using ex_target[OF assms(1-5,7,6)] by simp_all
  show d: "dials (envPos c) w = (fst (dials (envPos c) w), Inr (Some (a, 0)))"
    "readPositionFile_lr (envPos c) w = (pos a 0, snd (readPositionFile_lr (envPos c) w))"
    using envPos_read[of c a 0 w] assms(9,10) by simp_all
  show o: "only_read w (fst (dials (envPos c) w))" by (rule dials_only_read)
  show "only_read w (snd (readPositionFile_lr (envPos c) w))" by (rule readPositionFile_lr_only_read)
  from o assms(8) have "lastSmallDialValue (fst (dials (envPos c) w)) = Some 0"
    by (simp add: only_read_def)
  then show "beforeBig a 0 (fst (dials (envPos c) w))
           = (fst (dials (envPos c) w))\<lparr>lastDialValue := Some a, lastSmallDialValue := Some 0\<rparr>"
    by (rule beforeBig_eq)
qed

lemma ex_big:
  assumes "app v = host0"
  shows "pi_prop propInfo = 0 \<longrightarrow>
           propValue env (app (applyBig env propInfo d v)) 0 = JNum (50 + d * bigSensitivity v)"
    and "pi_prop propInfo = 0 \<and> d \<noteq> 0 \<longrightarrow>
           propValue env (app (applyBig_lr env propInfo d v)) 0 = JNum (50 + d * bigSensitivity v)"
    and "pi_prop propInfo = 1 \<and> pi_valueType propInfo = COLOR \<longrightarrow>
           propValue env (app (applyBig env propInfo d v)) 1
           = JArr [JNum (max 0 (min 1 (0.95 + d * bigSensitivity v * 0.01))), JNum 0.5, JNum 0.25, JNum 1]"
    and "pi_prop propInfo = 1 \<and> pi_valueType propInfo = COLOR \<and> d \<noteq> 0 \<longrightarrow>
           propValue env (app (applyBig_lr env propInfo d v)) 1
           = JArr [JNum (max 0 (min 1 (0.95 + d * bigSensitivity v * 0.01))), JNum 0.5, JNum 0.25, JNum 1]"
proof -
  note w = ex_write[OF assms, of _ env]
  show "pi_prop propInfo = 0 \<longrightarrow>
           propValue env (app (applyBig env propInfo d v)) 0 = JNum (50 + d * bigSensitivity v)"
    using applyBig_scalar[of env v propInfo 50 d] w by auto
  show "pi_prop propInfo = 0 \<and> d \<noteq> 0 \<longrightarrow>
           propValue env (app (applyBig_lr env propInfo d v)) 0 = JNum (50 + d * bigSensitivity v)"
    using applyBig_lr_scalar[of env v propInfo 50 d] w by auto
  show "pi_prop propInfo = 1 \<and> pi_valueType propInfo = COLOR \<longrightarrow>
           propValue env (app (applyBig env propInfo d v)) 1
           = JArr [JNum (max 0 (min 1 (0.95 + d * bigSensitivity v * 0.01))), JNum 0.5, JNum 0.25, JNum 1]"
    using applyBig_color[where env = env and v = v and propInfo = propInfo and a = "0.95"
        and rest = "[JNum 0.5, JNum 0.25, JNum 1]" and d = d] w by auto
  show "pi_prop propInfo = 1 \<and> pi_valueType propInfo = COLOR \<and> d \<noteq> 0 \<longrightarrow>
           propValue env (app (applyBig_lr env propInfo d v)) 1
           = JArr [JNum (max 0 (min 1 (0.95 + d * bigSensitivity v * 0.01))), JNum 0.5, JNum 0.25, JNum 1]"
    using applyBig_lr_color[where env = env and v = v and propInfo = propInfo and a = "0.95"
        and rest = "[JNum 0.5, JNum 0.25, JNum 1]" and d = d] w by auto
qed

text \<open>
  C10. When the value of a dial differs from the last value of that dial by more than
  \<open>maxDelta\<close>, the value read still becomes the last value of that dial; and unless
  the selected layer changes in between (which resets the last value), the next call
  that reads another value of the big dial within the threshold applies the difference
  to the rejected value. The same holds in the first receiver script.
\<close>

theorem C10_rejected_sample_is_the_baseline:
  "(isActive w \<and> target env w = (wt, Some propInfo) \<and> dials env wt = (wd, Inr (Some (x, y)))
      \<and> lastDialValue w = Some b \<and> maxDelta < \<bar>x - b\<bar>
      \<longrightarrow> lastDialValue (updateProperty env w) = Some x
          \<and> (target env' (updateProperty env w) = (ut, Some propInfo') \<and> lastDialValue ut \<noteq> None
               \<and> dials env' ut = (ud, Inr (Some (x', y'))) \<and> x' \<noteq> x \<and> \<bar>x' - x\<bar> \<le> maxDelta
             \<longrightarrow> updateProperty env' (updateProperty env w)
                   = applyBig env' propInfo' (x' - x) (beforeBig x' y' ud)))
   \<and> (isActive w \<and> target env w = (wt, Some propInfo) \<and> dials env wt = (wd, Inr (Some (x, y)))
      \<and> lastSmallDialValue w = Some s \<and> maxDelta < \<bar>y - s\<bar>
      \<longrightarrow> lastSmallDialValue (updateProperty env w) = Some y)
   \<and> (isActive w \<and> target_lr env w = (vt, Some propInfo) \<and> readPositionFile_lr env vt = (p, vd)
      \<and> finite_number (field ''x'' p) = Some z \<and> lastDialValue w = Some c \<and> maxDelta_lr < \<bar>z - c\<bar>
      \<longrightarrow> lastDialValue (updateProperty_lr env w) = Some z
          \<and> (target_lr env' (updateProperty_lr env w) = (ut, Some propInfo')
               \<and> lastDialValue ut \<noteq> None \<and> readPositionFile_lr env' ut = (p', ud)
               \<and> finite_number (field ''x'' p') = Some z' \<and> z' \<noteq> z \<and> \<bar>z' - z\<bar> \<le> maxDelta_lr
             \<longrightarrow> updateProperty_lr env' (updateProperty_lr env w)
                   = applyBig_lr env' propInfo' (z' - z) (ud\<lparr>lastDialValue := Some z'\<rparr>)))"
proof (intro conjI impI)
  assume h: "isActive w \<and> target env w = (wt, Some propInfo) \<and> dials env wt = (wd, Inr (Some (x, y)))
      \<and> lastDialValue w = Some b \<and> maxDelta < \<bar>x - b\<bar>"
  then show s: "lastDialValue (updateProperty env w) = Some x"
    using updateProperty_sample[of w env wt propInfo wd x y] by simp
  assume g: "target env' (updateProperty env w) = (ut, Some propInfo') \<and> lastDialValue ut \<noteq> None
               \<and> dials env' ut = (ud, Inr (Some (x', y'))) \<and> x' \<noteq> x \<and> \<bar>x' - x\<bar> \<le> maxDelta"
  from h updateProperty_kept[of w env] have a: "isActive (updateProperty env w)"
    by (simp add: kept_def)
  from g s target_fields[of env' "updateProperty env w" ut] have "lastDialValue ut = Some x" by auto
  with a g show "updateProperty env' (updateProperty env w)
                   = applyBig env' propInfo' (x' - x) (beforeBig x' y' ud)"
    using updateProperty_big[of "updateProperty env w" env' ut propInfo' ud x' y' x] by simp
next
  assume "isActive w \<and> target env w = (wt, Some propInfo) \<and> dials env wt = (wd, Inr (Some (x, y)))
      \<and> lastSmallDialValue w = Some s \<and> maxDelta < \<bar>y - s\<bar>"
  then show "lastSmallDialValue (updateProperty env w) = Some y"
    using updateProperty_sample[of w env wt propInfo wd x y] by simp
next
  assume h: "isActive w \<and> target_lr env w = (vt, Some propInfo) \<and> readPositionFile_lr env vt = (p, vd)
      \<and> finite_number (field ''x'' p) = Some z \<and> lastDialValue w = Some c \<and> maxDelta_lr < \<bar>z - c\<bar>"
  then show s: "lastDialValue (updateProperty_lr env w) = Some z"
    using updateProperty_lr_sample[of w env vt propInfo p vd z] by simp
  assume g: "target_lr env' (updateProperty_lr env w) = (ut, Some propInfo')
               \<and> lastDialValue ut \<noteq> None \<and> readPositionFile_lr env' ut = (p', ud)
               \<and> finite_number (field ''x'' p') = Some z' \<and> z' \<noteq> z \<and> \<bar>z' - z\<bar> \<le> maxDelta_lr"
  from h updateProperty_lr_kept[of w env] have a: "isActive (updateProperty_lr env w)"
    by (simp add: kept_def)
  from g s target_lr_fields[of env' "updateProperty_lr env w" ut] have "lastDialValue ut = Some z"
    by auto
  with a g show "updateProperty_lr env' (updateProperty_lr env w)
                   = applyBig_lr env' propInfo' (z' - z) (ud\<lparr>lastDialValue := Some z'\<rparr>)"
    using updateProperty_lr_big[of "updateProperty_lr env w" env' ut propInfo' p' ud z' z] by simp
qed


theorem C10_rejected_sample_is_the_baseline_witness:
  "lastDialValue world0 = Some 10 \<and> maxDelta < \<bar>500 - 10\<bar> \<and> maxDelta_lr < \<bar>500 - 10\<bar>
   \<and> lastDialValue (updateProperty (envPos ''{x:500,y:0}'') world0) = Some 500
   \<and> propValue (envPos ''{x:505,y:0}'')
        (app (updateProperty (envPos ''{x:505,y:0}'') (updateProperty (envPos ''{x:500,y:0}'') world0))) 0
      = JNum (50 + (505 - 500) * 0.1)
   \<and> lastSmallDialValue (updateProperty (envPos ''{x:10,y:300}'') world0) = Some 300
   \<and> lastDialValue (updateProperty_lr (envPos ''{x:500,y:0}'') world0) = Some 500
   \<and> propValue (envPos ''{x:505,y:0}'')
        (app (updateProperty_lr (envPos ''{x:505,y:0}'') (updateProperty_lr (envPos ''{x:500,y:0}'') world0))) 0
      = JNum (50 + (505 - 500) * 0.1)"
proof -
  let ?e = "envPos ''{x:500,y:0}''" and ?f = "envPos ''{x:505,y:0}''" and ?g = "envPos ''{x:10,y:300}''"
  let ?pi = "currentProperties world0 ! 0"
  let ?wd = "fst (dials ?e world0)" and ?vd = "snd (readPositionFile_lr ?e world0)"
  let ?u = "updateProperty ?e world0" and ?v = "updateProperty_lr ?e world0"
  let ?ud = "fst (dials ?f ?u)" and ?td = "snd (readPositionFile_lr ?f ?v)"
  have m: "maxDelta < \<bar>500 - 10\<bar>" "maxDelta_lr < \<bar>500 - 10\<bar>" "maxDelta < \<bar>300 - 0\<bar>"
    "\<bar>505 - 500\<bar> \<le> maxDelta" "\<bar>505 - 500\<bar> \<le> maxDelta_lr"
    by (simp_all add: maxDelta_def maxDelta_lr_def)
  note a = ex_step[of world0 0 "''{x:500,y:0}''" 500, OF world0_fields(1,5,11,6,12)]
  have a1: "target ?e world0 = (world0, Some ?pi)" "dials ?e world0 = (?wd, Inr (Some (500, 0)))"
    "only_read world0 ?wd" "beforeBig 500 0 ?wd = ?wd\<lparr>lastDialValue := Some 500, lastSmallDialValue := Some 0\<rparr>"
    "target_lr ?e world0 = (world0, Some ?pi)" "readPositionFile_lr ?e world0 = (pos 500 0, ?vd)"
    "only_read world0 ?vd"
    using a by (simp_all add: world0_fields sample_strings)
  have g1: "target ?g world0 = (world0, Some ?pi)"
    "dials ?g world0 = (fst (dials ?g world0), Inr (Some (10, 300)))"
    using ex_target[of world0 0 ?g] envPos_read[of "''{x:10,y:300}''" 10 300 world0]
    by (simp_all add: world0_fields sample_strings)
  have u: "?u = ?wd\<lparr>lastDialValue := Some 500, lastSmallDialValue := Some 0\<rparr>"
  proof -
    from a1(3) have "lastDialValue ?wd = Some 10" by (simp add: only_read_def world0_fields)
    from applyDial_rejected[OF this m(1), of _ ?pi 0] a1(4)
      updateProperty_unfold[OF world0_fields(2) a1(1,2)] show ?thesis by simp
  qed
  have v: "?v = ?vd\<lparr>lastDialValue := Some 500\<rparr>"
  proof -
    from a1(7) have "lastDialValue ?vd = Some 10" by (simp add: only_read_def world0_fields)
    with updateProperty_lr_unfold[OF world0_fields(2) a1(5,6) pos_x] m(2) show ?thesis by simp
  qed
  note b = ex_step[of ?u 0 "''{x:505,y:0}''" 505]
  have b1: "target ?f ?u = (?u, Some ?pi)" "dials ?f ?u = (?ud, Inr (Some (505, 0)))"
    "only_read ?u ?ud" "beforeBig 505 0 ?ud = ?ud\<lparr>lastDialValue := Some 505, lastSmallDialValue := Some 0\<rparr>"
    using b a1(3) by (simp_all add: u only_read_def world0_fields sample_strings)
  note c = ex_step[of ?v 0 "''{x:505,y:0}''" 505]
  have c1: "target_lr ?f ?v = (?v, Some ?pi)" "readPositionFile_lr ?f ?v = (pos 505 0, ?td)"
    "only_read ?v ?td"
    using c a1(7) by (simp_all add: v only_read_def world0_fields sample_strings)
  note t = C10_rejected_sample_is_the_baseline[where env = ?e and w = world0 and wt = world0
      and propInfo = ?pi and wd = ?wd and x = 500 and y = 0 and b = 10 and env' = ?f
      and propInfo' = ?pi and x' = 505 and y' = 0 and vt = world0 and p = "pos 500 0"
      and vd = ?vd and z = 500 and c = 10 and p' = "pos 505 0" and z' = 505]
  from t[where ut = ?u and ud = ?ud] a1 m b1
  have r1: "lastDialValue ?u = Some 500"
    "updateProperty ?f ?u = applyBig ?f ?pi (505 - 500) (beforeBig 505 0 ?ud)"
    by (simp_all add: world0_fields u)
  from t[where ut = ?v and ud = ?td] a1 m c1
  have r2: "lastDialValue ?v = Some 500"
    "updateProperty_lr ?f ?v = applyBig_lr ?f ?pi (505 - 500) (?td\<lparr>lastDialValue := Some 505\<rparr>)"
    by (simp_all add: world0_fields v pos_x)
  from C10_rejected_sample_is_the_baseline[where env = ?g and w = world0 and wt = world0
      and propInfo = ?pi and wd = "fst (dials ?g world0)" and x = 10 and y = 300 and s = 0] g1 m
  have r3: "lastSmallDialValue (updateProperty ?g world0) = Some 300"
    by (simp add: world0_fields)
  have uf: "app ?u = host0" "sensInput ?u = Some 0.1" "app ?v = host0" "sensInput ?v = Some 0.1"
    using a1(3,7) by (simp_all add: u v only_read_def world0_fields)
  have udf: "app ?ud = host0" "sensInput ?ud = Some 0.1" "app ?td = host0" "sensInput ?td = Some 0.1"
    using b1(3) c1(3) uf by (simp_all add: only_read_def)
  have h1: "app (beforeBig 505 0 ?ud) = host0" "sensInput (beforeBig 505 0 ?ud) = Some 0.1"
    by (simp_all add: b1(4) udf)
  have h2: "app (?td\<lparr>lastDialValue := Some 505\<rparr>) = host0"
    "sensInput (?td\<lparr>lastDialValue := Some 505\<rparr>) = Some 0.1"
    by (simp_all add: udf)
  from ex_big(1)[OF h1(1), of ?pi ?f "505 - 500"] h1(2) r1(2)
  have p1: "propValue ?f (app (updateProperty ?f ?u)) 0 = JNum (50 + (505 - 500) * 0.1)"
    by (simp add: world0_fields bigSensitivity_def)
  from ex_big(2)[OF h2(1), of ?pi "505 - 500" ?f] h2(2) r2(2)
  have p2: "propValue ?f (app (updateProperty_lr ?f ?v)) 0 = JNum (50 + (505 - 500) * 0.1)"
    by (simp add: world0_fields bigSensitivity_def)
  from m r1(1) r2(1) r3 p1 p2 show ?thesis by (simp add: world0_fields)
qed










end
